theory Spec2Isabelle
  imports Main "HOL-Library.Sublist"
begin

text \<open>
  A GraphQL backend for user accounts. This theory embeds the context function of
  \<open>createApolloServer\<close> (file \<open>utils/apollo-server.js\<close>) and the resolvers
  \<open>Query.getAuthUser\<close>, \<open>Query.getUser\<close>, \<open>Query.searchUsers\<close>,
  \<open>Query.verifyResetPasswordToken\<close>, \<open>Mutation.signin\<close> and \<open>Mutation.signup\<close>, and
  proves what the specification claims of them. The store driver, the token library, the
  password hashing library and the \<open>User\<close> model are outside the sources: the store is a
  list of documents with the driver's documented operations, the libraries are parameters
  with their documented failures, and the \<open>save\<close> of the \<open>User\<close> model is a parameter of
  sign-up, with an instance that follows the specification.
\<close>

section \<open>Strings and the regular expressions of the resolvers\<close>

text \<open>
  A JavaScript string is a sequence of UTF-16 code units. The model takes \<^typ>\<open>string\<close>,
  so a character is a code unit below 256 (the Latin-1 range, where a code unit is a code
  point) and \<open>length\<close> is the \<open>.length\<close> of the source.
\<close>

definition code_unit :: "char \<Rightarrow> nat" where
  "code_unit c = of_char c"

text \<open>The character class escapes \<open>\w\<close> and \<open>\s\<close>, and the line terminators that \<open>.\<close> skips.\<close>

definition isWordChar :: "char \<Rightarrow> bool" where
  "isWordChar c = (let n = code_unit c in
     (97 \<le> n \<and> n \<le> 122) \<or> (65 \<le> n \<and> n \<le> 90) \<or> (48 \<le> n \<and> n \<le> 57) \<or> n = 95)"

definition isWhiteSpace :: "char \<Rightarrow> bool" where
  "isWhiteSpace c = (let n = code_unit c in (9 \<le> n \<and> n \<le> 13) \<or> n = 32 \<or> n = 160)"

definition isLineTerminator :: "char \<Rightarrow> bool" where
  "isLineTerminator c = (let n = code_unit c in n = 10 \<or> n = 13)"

text \<open>
  \<open>String.prototype.toLowerCase\<close> on the Latin-1 range: \<open>A-Z\<close> and the accented capitals
  \<open>0xC0-0xDE\<close> (but the multiplication sign \<open>0xD7\<close>) move up by 32.
\<close>

definition toLowerCase_char :: "char \<Rightarrow> char" where
  "toLowerCase_char c = (let n = code_unit c in
     if (65 \<le> n \<and> n \<le> 90) \<or> (192 \<le> n \<and> n \<le> 214) \<or> (216 \<le> n \<and> n \<le> 222)
     then char_of (n + 32) else c)"

definition toLowerCase :: "string \<Rightarrow> string" where
  "toLowerCase s = map toLowerCase_char s"

text \<open>
  The \<open>Canonicalize\<close> operation of a regular expression with the \<open>i\<close> flag: the upper-case
  form of the character when that is a single code unit of the same range. Within Latin-1
  the small letters \<open>a-z\<close> and \<open>0xE0-0xFE\<close> (but the division sign \<open>0xF7\<close>) move down by 32;
  \<open>0xB5\<close>, \<open>0xDF\<close> and \<open>0xFF\<close> have no upper-case form in the range and stay.
\<close>

definition canonicalize :: "bool \<Rightarrow> char \<Rightarrow> char" where
  "canonicalize ignoreCase c = (let n = code_unit c in
     if ignoreCase \<and> ((97 \<le> n \<and> n \<le> 122) \<or> (224 \<le> n \<and> n \<le> 246) \<or> (248 \<le> n \<and> n \<le> 254))
     then char_of (n - 32) else c)"

text \<open>
  The abstract syntax of the regular expression literals of \<open>Mutation.signup\<close>: pattern
  characters, \<open>.\<close>, character classes (negated or not) over single characters, ranges,
  \<open>\s\<close>, \<open>\w\<close> and \<open>\W\<close>, sequence, alternation, the quantifiers \<open>{lo,hi}\<close> (\<open>*\<close> is
  \<open>Rep 0 None\<close>, \<open>+\<close> is \<open>Rep 1 None\<close>), the assertions \<open>^\<close> and \<open>$\<close> and the negative
  lookahead \<open>(?!r)\<close>. Groups only give structure: no literal of the source refers back to
  a capture.
\<close>

datatype class_item = CChar char | CRange char char | CSpace | CWord | CNonWord

fun item_has :: "class_item \<Rightarrow> char \<Rightarrow> bool" where
  "item_has (CChar d) c = (c = d)"
| "item_has (CRange lo hi) c = (code_unit lo \<le> code_unit c \<and> code_unit c \<le> code_unit hi)"
| "item_has CSpace c = isWhiteSpace c"
| "item_has CWord c = isWordChar c"
| "item_has CNonWord c = (\<not> isWordChar c)"

definition class_has :: "bool \<Rightarrow> class_item list \<Rightarrow> char \<Rightarrow> bool" where
  "class_has ignoreCase items c =
     list_ex (\<lambda>i. item_has i c \<or>
        (ignoreCase \<and> (item_has i (canonicalize True c) \<or> item_has i (toLowerCase_char c)))) items"

datatype regex =
    Eps
  | Chr char
  | Dot
  | Cls bool "class_item list"
  | Seq regex regex
  | Alt regex regex
  | Rep nat "nat option" regex
  | Bol
  | Eol
  | NegLook regex

text \<open>
  Matching. A position of the input is the suffix that starts there; \<open>rx_match ic n r s\<close>
  lists the positions at which a match of \<open>r\<close> that starts at \<open>s\<close> can end (\<open>n\<close> is the
  length of the whole input, for \<open>^\<close>). \<open>RegExp.prototype.test\<close> asks whether some match
  exists, so the order in which a backtracking matcher tries the alternatives does not
  show. A quantifier runs its body \<open>lo\<close> times and then up to \<open>hi - lo\<close> times more; with no
  upper bound, as many more times as the input has characters left, since an iteration
  that consumes nothing reaches no new position.
\<close>

definition one_char :: "(char \<Rightarrow> bool) \<Rightarrow> string \<Rightarrow> string list" where
  "one_char P s = (case s of [] \<Rightarrow> [] | c # t \<Rightarrow> if P c then [t] else [])"

definition step :: "(string \<Rightarrow> string list) \<Rightarrow> string list \<Rightarrow> string list" where
  "step f S = remdups (concat (map f S))"

primrec iter_exact :: "nat \<Rightarrow> (string \<Rightarrow> string list) \<Rightarrow> string list \<Rightarrow> string list" where
  "iter_exact 0 f S = S"
| "iter_exact (Suc k) f S = iter_exact k f (step f S)"

primrec iter_upto :: "nat \<Rightarrow> (string \<Rightarrow> string list) \<Rightarrow> string list \<Rightarrow> string list" where
  "iter_upto 0 f S = S"
| "iter_upto (Suc k) f S = S @ iter_upto k f (step f S)"

primrec rx_match :: "bool \<Rightarrow> nat \<Rightarrow> regex \<Rightarrow> string \<Rightarrow> string list" where
  "rx_match ic n Eps s = [s]"
| "rx_match ic n (Chr d) s = one_char (\<lambda>c. canonicalize ic c = canonicalize ic d) s"
| "rx_match ic n Dot s = one_char (\<lambda>c. \<not> isLineTerminator c) s"
| "rx_match ic n (Cls negated items) s = one_char (\<lambda>c. class_has ic items c \<noteq> negated) s"
| "rx_match ic n (Seq r1 r2) s = step (rx_match ic n r2) (rx_match ic n r1 s)"
| "rx_match ic n (Alt r1 r2) s = remdups (rx_match ic n r1 s @ rx_match ic n r2 s)"
| "rx_match ic n (Rep lo hi r) s =
     remdups (iter_upto (case hi of None \<Rightarrow> length s | Some h \<Rightarrow> h - lo) (rx_match ic n r)
       (iter_exact lo (rx_match ic n r) [s]))"
| "rx_match ic n Bol s = (if length s = n then [s] else [])"
| "rx_match ic n Eol s = (if s = [] then [s] else [])"
| "rx_match ic n (NegLook r) s = (if rx_match ic n r s = [] then [s] else [])"

text \<open>\<open>regex.test(s)\<close>: a match may start at any position of \<open>s\<close>.\<close>

definition rx_test :: "bool \<Rightarrow> regex \<Rightarrow> string \<Rightarrow> bool" where
  "rx_test ic r s = list_ex (\<lambda>t. rx_match ic (length s) r t \<noteq> []) (suffixes s)"

fun seqs :: "regex list \<Rightarrow> regex" where
  "seqs [] = Eps"
| "seqs [r] = r"
| "seqs (r # rs) = Seq r (seqs rs)"

text \<open>
  The two literals of \<open>Mutation.signup\<close>. The email pattern is
  \<^verbatim>\<open>/^(([^<>()[\]\\.,;:\s@"]+(\.[^<>()[\]\\.,;:\s@"]+)*)|(".+"))@((\[[0-9]{1,3}\.[0-9]{1,3}\.[0-9]{1,3}\.[0-9]{1,3}\])|(([a-zA-Z\-0-9]+\.)+[a-zA-Z]{2,}))$/\<close>
  and the username pattern is \<^verbatim>\<open>/^(?!.*\.\.)(?!.*\.$)[^\W][\w.]{0,29}$/\<close>.
  \<open>CHR 0x5C\<close> is the backslash and \<open>CHR 0x22\<close> the double quote.
\<close>

definition emailLocalChar :: regex where
  "emailLocalChar = Cls True
     [CChar CHR ''<'', CChar CHR ''>'', CChar CHR ''('', CChar CHR '')'', CChar CHR ''['',
      CChar CHR '']'', CChar (CHR 0x5C), CChar CHR ''.'', CChar CHR '','', CChar CHR '';'',
      CChar CHR '':'', CSpace, CChar CHR ''@'', CChar (CHR 0x22)]"

definition emailDigits :: regex where
  "emailDigits = Rep 1 (Some 3) (Cls False [CRange CHR ''0'' CHR ''9''])"

definition emailRegex :: regex where
  "emailRegex = seqs
     [Bol,
      Alt (Seq (Rep 1 None emailLocalChar)
               (Rep 0 None (Seq (Chr CHR ''.'') (Rep 1 None emailLocalChar))))
          (seqs [Chr (CHR 0x22), Rep 1 None Dot, Chr (CHR 0x22)]),
      Chr CHR ''@'',
      Alt (seqs [Chr CHR ''['', emailDigits, Chr CHR ''.'', emailDigits, Chr CHR ''.'',
                 emailDigits, Chr CHR ''.'', emailDigits, Chr CHR '']''])
          (Seq (Rep 1 None
                  (Seq (Rep 1 None (Cls False [CRange CHR ''a'' CHR ''z'', CRange CHR ''A'' CHR ''Z'',
                                             CChar CHR ''-'', CRange CHR ''0'' CHR ''9'']))
                       (Chr CHR ''.'')))
               (Rep 2 None (Cls False [CRange CHR ''a'' CHR ''z'', CRange CHR ''A'' CHR ''Z'']))),
      Eol]"

definition usernameRegex :: regex where
  "usernameRegex = seqs
     [Bol,
      NegLook (seqs [Rep 0 None Dot, Chr CHR ''.'', Chr CHR ''.'']),
      NegLook (seqs [Rep 0 None Dot, Chr CHR ''.'', Eol]),
      Cls True [CNonWord],
      Rep 0 (Some 29) (Cls False [CWord, CChar CHR ''.'']),
      Eol]"

section \<open>Documents, errors and promises\<close>

text \<open>
  The object literal \<open>{ fullName, email, username, password }\<close> of the sign-up input,
  which is also the object \<open>Mutation.signup\<close> hands to \<open>new User(...)\<close>; a stored user
  document extends it. Posts are documents of their own collection, a user holds their
  identifiers. Times are milliseconds, as \<open>Date.now()\<close> gives them.
\<close>

record new_user =
  fullName :: string
  email :: string
  username :: string
  password :: string

record user = new_user +
  user_id :: string
  isOnline :: bool
  passwordResetToken :: "string option"
  passwordResetTokenExpiry :: "int option"
  posts :: "string list"

record post =
  post_id :: string
  author :: string
  createdAt :: int

text \<open>The decoded claims that the resolvers read: \<open>authUser.id\<close> and \<open>authUser.email\<close>.\<close>

record auth_user =
  auth_id :: string
  auth_email :: string

text \<open>
  Every \<open>throw new Error(message)\<close> of the resolvers is a constructor, named after the
  error of the specification's taxonomy that the message stands for:
  \<^item> \<open>AlreadyExists field\<close>: \<open>User with given ${field} already exists.\<close>
  \<^item> \<open>MissingField\<close>: \<open>All fields are required.\<close>
  \<^item> \<open>InvalidFullName TooLong\<close>: \<open>Full name no more than 40 characters.\<close>;
    \<open>InvalidFullName TooShort\<close>: \<open>Full name min 4 characters.\<close>
  \<^item> \<open>InvalidEmail\<close>: \<open>Enter a valid email address.\<close>
  \<^item> \<open>InvalidUsername\<close>: \<open>Usernames can only use letters, numbers, underscores and periods.\<close>
  \<^item> \<open>UsernameLength TooLong\<close>: \<open>Username no more than 50 characters.\<close> (thrown above 20);
    \<open>UsernameLength TooShort\<close>: \<open>Username min 3 characters.\<close>
  \<^item> \<open>UsernameUnavailable\<close>: \<open>This username isn't available. Please try another.\<close>
  \<^item> \<open>WeakPassword\<close>: \<open>Password min 6 characters.\<close>
  \<^item> \<open>NotFound\<close>: \<open>User not found.\<close> (sign-in) and \<open>User with given params doesn't exists.\<close>
    (\<open>getUser\<close>)
  \<^item> \<open>InvalidCredentials\<close>: \<open>Invalid password.\<close>
  \<^item> \<open>IllegalArguments\<close>: the rejection \<open>Illegal arguments\<close> of \<open>bcrypt.compare\<close>
  \<^item> \<open>InvalidArgument Neither\<close>: \<open>username or id is required params.\<close>;
    \<open>InvalidArgument Both\<close>: \<open>please pass only username or only id as a param\<close>
  \<^item> \<open>InvalidOrExpiredToken\<close>: \<open>This token is either invalid or expired!\<close>
  \<^item> \<open>Unauthenticated\<close>: the rejection \<open>Couldn't authenticate user\<close> of \<open>checkAuthorization\<close>
  \<^item> \<open>TypeError\<close>: reading a property of \<open>undefined\<close>
  \<^item> \<open>SyntaxError\<close>: a pattern that \<open>new RegExp\<close> refuses.
\<close>

datatype bound = TooLong | TooShort

datatype supplied = Neither | Both

datatype error =
    AlreadyExists string
  | MissingField
  | InvalidFullName bound
  | InvalidEmail
  | InvalidUsername
  | UsernameLength bound
  | UsernameUnavailable
  | WeakPassword
  | NotFound
  | InvalidCredentials
  | IllegalArguments
  | InvalidArgument supplied
  | InvalidOrExpiredToken
  | Unauthenticated
  | TypeError
  | SyntaxError

text \<open>
  A promise, once the event loop has run: fulfilled, rejected, or never settled. Awaiting a
  promise that never settles never resumes, so the awaiting function's promise never
  settles either.
\<close>

datatype 'a promise = Fulfilled 'a | Rejected error | Pending

section \<open>The context builder\<close>

text \<open>
  \<open>jwt.verify(token, secret)\<close> without a callback is synchronous: it returns the decoded
  payload or throws. It is a parameter here, with the secret inside it. The payload it
  returns may be falsy.
\<close>

datatype 'c verified = Throws | FalsyPayload | Payload 'c

text \<open>
  \<open>checkAuthorization\<close> builds \<open>new Promise(async (resolve, reject) => ...)\<close>. The executor
  is an async function: when \<open>jwt.verify\<close> throws in it, the throw rejects the executor's
  own promise, which nobody holds; neither \<open>resolve\<close> nor \<open>reject\<close> is called and the
  promise that \<open>checkAuthorization\<close> returns never settles.
\<close>

definition checkAuthorization :: "(string option \<Rightarrow> 'c verified) \<Rightarrow> string option \<Rightarrow> 'c promise" where
  "checkAuthorization jwt_verify token =
     (case jwt_verify token of
        Throws \<Rightarrow> Pending
      | Payload authUser \<Rightarrow> Fulfilled authUser
      | FalsyPayload \<Rightarrow> Rejected Unauthenticated)"

text \<open>
  The context is an object: a map from property names to values. A value is the
  \<open>authUser\<close> of the builder (the claims, or \<open>undefined\<close>), a store handle of \<open>models\<close>, or
  whatever a connection-time context holds.
\<close>

datatype ('c, 'h) ctx_value = AuthUser "'c option" | Handle 'h

type_synonym ('c, 'h) ctx = "string \<rightharpoonup> ('c, 'h) ctx_value"

definition Object_assign :: "('k \<rightharpoonup> 'v) \<Rightarrow> ('k \<rightharpoonup> 'v) \<Rightarrow> ('k \<rightharpoonup> 'v)" where
  "Object_assign target source = target ++ source"

text \<open>
  The argument \<open>{ req, connection }\<close> of the context function. \<open>connection\<close> is present
  for a message of a persistent connection and is given here by its \<open>context\<close>; \<open>req\<close>
  is present for an HTTP request and is given here by \<open>req.headers.authorization\<close>, a
  string or \<open>undefined\<close>. With neither, reading \<open>req.headers\<close> throws.
\<close>

record ('c, 'h) integration =
  req :: "string option option"
  connection :: "('c, 'h) ctx option"

text \<open>
  The context function of \<open>createApolloServer\<close>. The second component of the result lists
  the tokens that were handed to \<open>jwt.verify\<close>, in order.
\<close>

definition createApolloServer_context :: "(string option \<Rightarrow> 'c verified) \<Rightarrow> (string \<rightharpoonup> 'h) \<Rightarrow> ('c, 'h) integration
    \<Rightarrow> ('c, 'h) ctx promise \<times> string option list" where
  "createApolloServer_context jwt_verify models i =
     (case connection i of
        Some connection_context \<Rightarrow> (Fulfilled connection_context, [])
      | None \<Rightarrow>
          (case req i of
             None \<Rightarrow> (Rejected TypeError, [])
           | Some authorization \<Rightarrow>
               if authorization \<noteq> Some ''null'' then
                 (case checkAuthorization jwt_verify authorization of
                    Fulfilled user \<Rightarrow>
                      (Fulfilled (Object_assign [''authUser'' \<mapsto> AuthUser (Some user)]
                                    (map_option Handle \<circ> models)), [authorization])
                  | Rejected e \<Rightarrow> (Rejected e, [authorization])
                  | Pending \<Rightarrow> (Pending, [authorization]))
               else
                 (Fulfilled (Object_assign [''authUser'' \<mapsto> AuthUser None]
                               (map_option Handle \<circ> models)), [])))"

section \<open>The store\<close>

text \<open>
  A collection is the list of its documents in the store's natural order. \<open>findOne\<close>
  gives the first document that satisfies the query, or \<open>null\<close>; \<open>findOneAndUpdate\<close>
  updates that document in the collection and gives it as it was before the update (the
  driver's default); \<open>find(...).limit(k)\<close> gives the first \<open>k\<close> documents that satisfy the
  query.
\<close>

definition findOne :: "('a \<Rightarrow> bool) \<Rightarrow> 'a list \<Rightarrow> 'a option" where
  "findOne query coll = find query coll"

fun findOneAndUpdate :: "('a \<Rightarrow> bool) \<Rightarrow> ('a \<Rightarrow> 'a) \<Rightarrow> 'a list \<Rightarrow> 'a option \<times> 'a list" where
  "findOneAndUpdate query update [] = (None, [])"
| "findOneAndUpdate query update (d # ds) =
     (if query d then (Some d, update d # ds)
      else (case findOneAndUpdate query update ds of (found, ds') \<Rightarrow> (found, d # ds')))"

definition find_limit :: "('a \<Rightarrow> bool) \<Rightarrow> nat \<Rightarrow> 'a list \<Rightarrow> 'a list" where
  "find_limit query k coll = take k (filter query coll)"

text \<open>
  \<open>populate({ path: 'posts', options: { sort: { createdAt: 'desc' } } })\<close> replaces the
  identifiers in \<open>posts\<close> by the post documents they name, latest first; populating
  \<open>author\<close> of a post looks its author up among the users.
\<close>

definition sort_desc :: "('a \<Rightarrow> int) \<Rightarrow> 'a list \<Rightarrow> 'a list" where
  "sort_desc key xs = rev (sort_key key xs)"

definition populate_posts :: "post list \<Rightarrow> user \<Rightarrow> post list" where
  "populate_posts Post u = sort_desc createdAt (filter (\<lambda>p. post_id p \<in> set (posts u)) Post)"

record populated_post =
  post_doc :: post
  author_doc :: "user option"

definition populate_author :: "user list \<Rightarrow> post \<Rightarrow> populated_post" where
  "populate_author User p =
     \<lparr>post_doc = p, author_doc = findOne (\<lambda>u. user_id u = author p) User\<rparr>"

record 'p populated_user =
  doc :: user
  populated_posts :: "'p list"

section \<open>Queries\<close>

text \<open>The truthiness of an argument that is a string, \<open>null\<close> or \<open>undefined\<close>.\<close>

definition truthy :: "string option \<Rightarrow> bool" where
  "truthy v = (case v of None \<Rightarrow> False | Some s \<Rightarrow> s \<noteq> [])"

definition AUTH_TOKEN_EXPIRY :: string where
  "AUTH_TOKEN_EXPIRY = ''1y''"

definition RESET_PASSWORD_TOKEN_EXPIRY :: int where
  "RESET_PASSWORD_TOKEN_EXPIRY = 3600000"

text \<open>\<open>Query.getAuthUser\<close>: the result and the users collection afterwards.\<close>

definition getAuthUser :: "auth_user option \<Rightarrow> user list \<Rightarrow> post list
    \<Rightarrow> post populated_user option \<times> user list" where
  "getAuthUser authUser User Post =
     (case authUser of
        None \<Rightarrow> (None, User)
      | Some a \<Rightarrow>
          (case findOneAndUpdate (\<lambda>u. email u = auth_email a) (\<lambda>u. u\<lparr>isOnline := True\<rparr>) User of
             (None, User') \<Rightarrow> (None, User')
           | (Some u, User') \<Rightarrow>
               (Some \<lparr>doc = u, populated_posts = populate_posts Post u\<rparr>, User')))"

text \<open>\<open>Query.getUser\<close>, with the arguments \<open>username\<close> and \<open>id\<close>.\<close>

definition getUser :: "string option \<Rightarrow> string option \<Rightarrow> user list \<Rightarrow> post list
    \<Rightarrow> error + populated_post populated_user" where
  "getUser username_arg id_arg User Post =
     (if \<not> truthy username_arg \<and> \<not> truthy id_arg then Inl (InvalidArgument Neither)
      else if truthy username_arg \<and> truthy id_arg then Inl (InvalidArgument Both)
      else
        (case findOne (if truthy username_arg then (\<lambda>u. Some (username u) = username_arg)
                       else (\<lambda>u. Some (user_id u) = id_arg)) User of
           None \<Rightarrow> Inl NotFound
         | Some u \<Rightarrow>
             Inr \<lparr>doc = u, populated_posts = map (populate_author User) (populate_posts Post u)\<rparr>))"

text \<open>
  \<open>new RegExp(searchQuery, 'i')\<close>. A pattern of pattern characters and \<open>.\<close> only is
  compiled here; the rest of the pattern language is left to the engine, a parameter that
  gives the \<open>test\<close> of the compiled pattern or the error the constructor throws. The syntax
  characters are \<^verbatim>\<open>^ $ \ . * + ? ( ) [ ] { } |\<close>.
\<close>

definition isSyntaxCharacter :: "char \<Rightarrow> bool" where
  "isSyntaxCharacter c = (c \<in> set ''^$.*+?()[]{}|'' \<or> c = CHR 0x5C)"

definition plain_atom :: "char \<Rightarrow> regex" where
  "plain_atom c = (if c = CHR ''.'' then Dot else Chr c)"

definition plain_pattern :: "string \<Rightarrow> bool" where
  "plain_pattern pattern = list_all (\<lambda>c. c = CHR ''.'' \<or> \<not> isSyntaxCharacter c) pattern"

definition RegExp_i :: "(string \<Rightarrow> error + (string \<Rightarrow> bool)) \<Rightarrow> string \<Rightarrow> error + (string \<Rightarrow> bool)" where
  "RegExp_i engine pattern =
     (if plain_pattern pattern then Inr (rx_test True (foldr Seq (map plain_atom pattern) Eps))
      else engine pattern)"

text \<open>
  \<open>Query.searchUsers\<close>. The query object is built in the order of the source: the two
  regular expressions first, then \<open>authUser.id\<close>.
\<close>

definition searchUsers :: "(string \<Rightarrow> error + (string \<Rightarrow> bool)) \<Rightarrow> string option \<Rightarrow> user list
    \<Rightarrow> auth_user option \<Rightarrow> error + user list" where
  "searchUsers engine searchQuery User authUser =
     (case searchQuery of
        None \<Rightarrow> Inr []
      | Some q \<Rightarrow>
          if q = [] then Inr []
          else
            (case RegExp_i engine q of
               Inl e \<Rightarrow> Inl e
             | Inr re \<Rightarrow>
                 (case authUser of
                    None \<Rightarrow> Inl TypeError
                  | Some a \<Rightarrow>
                      Inr (find_limit
                        (\<lambda>u. (re (username u) \<or> re (fullName u)) \<and> user_id u \<noteq> auth_id a) 50 User))))"

text \<open>\<open>Query.verifyResetPasswordToken\<close>; \<open>now\<close> is \<open>Date.now()\<close>, the result the \<open>message\<close>.\<close>

definition verifyResetPasswordToken :: "int \<Rightarrow> string \<Rightarrow> string \<Rightarrow> user list \<Rightarrow> error + string" where
  "verifyResetPasswordToken now email_arg token User =
     (case findOne (\<lambda>u. email u = email_arg \<and> passwordResetToken u = Some token \<and>
                        (case passwordResetTokenExpiry u of
                           None \<Rightarrow> False
                         | Some expiry \<Rightarrow> expiry \<ge> now - RESET_PASSWORD_TOKEN_EXPIRY)) User of
        None \<Rightarrow> Inl InvalidOrExpiredToken
      | Some u \<Rightarrow> Inr ''Success'')"

section \<open>Mutations\<close>

text \<open>
  \<open>bcrypt.compare\<close>, \<open>generateToken\<close> (of \<open>utils/generate-token\<close>) and the secret are
  parameters. The comparison of the library is given on two strings. \<open>SignInInput\<close>
  declares \<open>password: String\<close>, so the argument may be \<open>null\<close> or absent; called without a
  callback on an argument that is not a string, the library returns a promise that
  rejects with \<open>Illegal arguments\<close>. The stored password is a string. The result of a
  mutation is the \<open>token\<close> of the object it returns.
\<close>

definition bcrypt_compare_call :: "(string \<Rightarrow> string \<Rightarrow> bool) \<Rightarrow> string option \<Rightarrow> string \<Rightarrow> error + bool" where
  "bcrypt_compare_call bcrypt_compare s hash =
     (case s of None \<Rightarrow> Inl IllegalArguments | Some p \<Rightarrow> Inr (bcrypt_compare p hash))"

definition signin :: "(string \<Rightarrow> string \<Rightarrow> bool) \<Rightarrow> (user \<Rightarrow> 's \<Rightarrow> string \<Rightarrow> 't) \<Rightarrow> 's
    \<Rightarrow> string \<Rightarrow> string option \<Rightarrow> user list \<Rightarrow> error + 't" where
  "signin bcrypt_compare generateToken SECRET emailOrUsername password_arg User =
     (case findOne (\<lambda>u. email u = emailOrUsername \<or> username u = emailOrUsername) User of
        None \<Rightarrow> Inl NotFound
      | Some u \<Rightarrow>
          (case bcrypt_compare_call bcrypt_compare password_arg (password u) of
             Inl e \<Rightarrow> Inl e
           | Inr isValidPassword \<Rightarrow>
               if \<not> isValidPassword then Inl InvalidCredentials
               else Inr (generateToken u SECRET AUTH_TOKEN_EXPIRY)))"

definition frontEndPages :: "string list" where
  "frontEndPages =
     [''forgot-password'', ''reset-password'', ''explore'', ''people'', ''notifications'', ''post'']"

text \<open>
  \<open>Mutation.signup\<close>. The \<open>User\<close> model is a parameter: \<open>save obj coll\<close> is the document
  that \<open>new User(obj).save()\<close> adds to the collection \<open>coll\<close>. The result has three
  components: what the resolver returns or throws, the users collection afterwards, and
  the objects that were handed to \<open>new User\<close>, in order.
\<close>

definition signup :: "(new_user \<Rightarrow> user list \<Rightarrow> user) \<Rightarrow> (user \<Rightarrow> 's \<Rightarrow> string \<Rightarrow> 't) \<Rightarrow> 's
    \<Rightarrow> new_user \<Rightarrow> user list \<Rightarrow> (error + 't) \<times> user list \<times> new_user list" where
  "signup save generateToken SECRET input User =
     (case findOne (\<lambda>u. email u = email input \<or> username u = username input) User of
        Some u \<Rightarrow>
          (Inl (AlreadyExists (if email u = email input then ''email'' else ''username'')), User, [])
      | None \<Rightarrow>
          if fullName input = [] \<or> email input = [] \<or> username input = [] \<or> password input = []
          then (Inl MissingField, User, [])
          else if length (fullName input) > 40 then (Inl (InvalidFullName TooLong), User, [])
          else if length (fullName input) < 4 then (Inl (InvalidFullName TooShort), User, [])
          else if \<not> rx_test False emailRegex (toLowerCase (email input))
          then (Inl InvalidEmail, User, [])
          else if \<not> rx_test False usernameRegex (username input) then (Inl InvalidUsername, User, [])
          else if length (username input) > 20 then (Inl (UsernameLength TooLong), User, [])
          else if length (username input) < 3 then (Inl (UsernameLength TooShort), User, [])
          else if username input \<in> set frontEndPages then (Inl UsernameUnavailable, User, [])
          else if length (password input) < 6 then (Inl WeakPassword, User, [])
          else
            (let obj = \<lparr>fullName = fullName input, email = email input,
                        username = username input, password = password input\<rparr>;
                 newUser = save obj User
             in (Inr (generateToken newUser SECRET AUTH_TOKEN_EXPIRY), User @ [newUser], [obj])))"

section \<open>The notions of the specification\<close>

text \<open>
  The specification's words for two of the checks, to be compared with the code.
  ``Case-insensitively contains'': the lower-case form of the query is a contiguous part of
  the lower-case form of the string.
\<close>

definition contains_ci :: "string \<Rightarrow> string \<Rightarrow> bool" where
  "contains_ci q s = sublist (toLowerCase q) (toLowerCase s)"

text \<open>
  The username pattern as the specification words it: the name starts with a word
  character, has no two consecutive periods, does not end in a period, and is at most 30
  word characters and periods.
\<close>

definition username_pattern :: "string \<Rightarrow> bool" where
  "username_pattern u =
     (u \<noteq> [] \<and> isWordChar (hd u) \<and> \<not> sublist ''..'' u \<and> last u \<noteq> CHR ''.'' \<and> length u \<le> 30 \<and>
      (\<forall>c\<in>set u. isWordChar c \<or> c = CHR ''.''))"

text \<open>
  The six rules of sign-up as the claim words them, each giving the error of its
  violation: uniqueness (naming the field), completeness, the length of the full name, the
  format of the email, the username, the length of the password. For the username the
  claim names two errors: the pattern fails with \<open>InvalidUsername\<close>; the length bounds 3
  and 20 and the reserved words fail with \<open>UsernameUnavailable\<close>. The first violated rule
  decides.
\<close>

definition signup_rules :: "new_user \<Rightarrow> user list \<Rightarrow> error option list" where
  "signup_rules input User =
     [(case findOne (\<lambda>u. email u = email input \<or> username u = username input) User of
         Some u \<Rightarrow> Some (AlreadyExists (if email u = email input then ''email'' else ''username''))
       | None \<Rightarrow> None),
      (if fullName input = [] \<or> email input = [] \<or> username input = [] \<or> password input = []
       then Some MissingField else None),
      (if length (fullName input) > 40 then Some (InvalidFullName TooLong)
       else if length (fullName input) < 4 then Some (InvalidFullName TooShort) else None),
      (if rx_test False emailRegex (toLowerCase (email input)) then None else Some InvalidEmail),
      (if \<not> username_pattern (username input) then Some InvalidUsername
       else if length (username input) > 20 \<or> length (username input) < 3 \<or>
               username input \<in> set frontEndPages
       then Some UsernameUnavailable else None),
      (if length (password input) < 6 then Some WeakPassword else None)]"

text \<open>
  The rules as amended: they differ from the claim's in the username rule only, where a
  length outside 3 and 20 has an error of its own, after the pattern and before the
  reserved words.
\<close>

definition signup_rules_amended :: "new_user \<Rightarrow> user list \<Rightarrow> error option list" where
  "signup_rules_amended input User =
     [(case findOne (\<lambda>u. email u = email input \<or> username u = username input) User of
         Some u \<Rightarrow> Some (AlreadyExists (if email u = email input then ''email'' else ''username''))
       | None \<Rightarrow> None),
      (if fullName input = [] \<or> email input = [] \<or> username input = [] \<or> password input = []
       then Some MissingField else None),
      (if length (fullName input) > 40 then Some (InvalidFullName TooLong)
       else if length (fullName input) < 4 then Some (InvalidFullName TooShort) else None),
      (if rx_test False emailRegex (toLowerCase (email input)) then None else Some InvalidEmail),
      (if \<not> username_pattern (username input) then Some InvalidUsername
       else if length (username input) > 20 then Some (UsernameLength TooLong)
       else if length (username input) < 3 then Some (UsernameLength TooShort)
       else if username input \<in> set frontEndPages then Some UsernameUnavailable else None),
      (if length (password input) < 6 then Some WeakPassword else None)]"

fun first_violation :: "error option list \<Rightarrow> error option" where
  "first_violation [] = None"
| "first_violation (None # rules) = first_violation rules"
| "first_violation (Some e # rules) = Some e"

text \<open>
  Modelled from the spec: the \<open>User\<close> model, whose schema and \<open>save\<close> are not among
  the sources. The specification has sign-up create the user ``storing a one-way hash of
  the password, never the plaintext'', under an identifier of its own; a new user is not
  online and has no reset token and no posts. The hash function and the choice of the
  identifier are parameters.
\<close>

definition User_save :: "(string \<Rightarrow> string) \<Rightarrow> (new_user \<Rightarrow> user list \<Rightarrow> string) \<Rightarrow> new_user \<Rightarrow> user list
    \<Rightarrow> user" where
  "User_save hash new_id obj coll =
     \<lparr>fullName = fullName obj, email = email obj, username = username obj,
      password = hash (password obj), user_id = new_id obj coll, isOnline = False,
      passwordResetToken = None, passwordResetTokenExpiry = None, posts = []\<rparr>"

section \<open>Example data\<close>

text \<open>Two stored users, three posts, and instances of the parameters for the examples.\<close>

definition alice :: user where
  "alice = \<lparr>fullName = ''Alice Doe'', email = ''alice@example.com'', username = ''alice'',
     password = ''hash-of-wonderland'', user_id = ''u1'', isOnline = False,
     passwordResetToken = Some ''r3s3t'', passwordResetTokenExpiry = Some 10000000,
     posts = [''p1'', ''p2'']\<rparr>"

definition bob :: user where
  "bob = \<lparr>fullName = ''Bob Builder'', email = ''bob@example.com'', username = ''bob'',
     password = ''hash-of-canwefixit'', user_id = ''u2'', isOnline = False,
     passwordResetToken = None, passwordResetTokenExpiry = None, posts = [''p3'']\<rparr>"

definition example_posts :: "post list" where
  "example_posts =
     [\<lparr>post_id = ''p1'', author = ''u1'', createdAt = 100\<rparr>,
      \<lparr>post_id = ''p3'', author = ''u2'', createdAt = 150\<rparr>,
      \<lparr>post_id = ''p2'', author = ''u1'', createdAt = 200\<rparr>]"

definition alice_claims :: auth_user where
  "alice_claims = \<lparr>auth_id = ''u1'', auth_email = ''alice@example.com''\<rparr>"

definition carol_input :: new_user where
  "carol_input = \<lparr>fullName = ''Carol Danvers'', email = ''carol@example.com'',
     username = ''carol'', password = ''secret1''\<rparr>"

text \<open>A verifier that accepts one token and throws on every other.\<close>

definition jwt_verify_example :: "string option \<Rightarrow> auth_user verified" where
  "jwt_verify_example token = (if token = Some ''valid'' then Payload alice_claims else Throws)"

text \<open>A comparison that takes \<open>hash-of-\<close> followed by the password for its hash.\<close>

definition bcrypt_compare_example :: "string \<Rightarrow> string \<Rightarrow> bool" where
  "bcrypt_compare_example password_arg hash = (hash = ''hash-of-'' @ password_arg)"

definition generateToken_example :: "user \<Rightarrow> string \<Rightarrow> string \<Rightarrow> string \<times> string \<times> string" where
  "generateToken_example u secret expiresIn = (user_id u, secret, expiresIn)"

text \<open>
  A hash that the example comparison verifies, and identifiers made of the username.
\<close>

definition hash_example :: "string \<Rightarrow> string" where
  "hash_example password_arg = ''hash-of-'' @ password_arg"

definition new_id_example :: "new_user \<Rightarrow> user list \<Rightarrow> string" where
  "new_id_example obj coll = ''id-'' @ username obj"

text \<open>An engine that refuses every pattern left to it.\<close>

definition engine_refuses :: "string \<Rightarrow> error + (string \<Rightarrow> bool)" where
  "engine_refuses pattern = Inl SyntaxError"

section \<open>The store operations\<close>

lemma findOne_None_iff: "findOne q coll = None \<longleftrightarrow> (\<forall>d\<in>set coll. \<not> q d)"
  by (auto simp: findOne_def find_None_iff)

lemma findOne_SomeD: "findOne q coll = Some d \<Longrightarrow> d \<in> set coll \<and> q d"
  unfolding findOne_def by (auto simp: find_Some_iff)

text \<open>\<open>findOne\<close> gives the first document of the collection that satisfies the query.\<close>

lemma findOne_first:
  "findOne q coll = Some d \<longleftrightarrow> (\<exists>pre suf. coll = pre @ d # suf \<and> q d \<and> (\<forall>x\<in>set pre. \<not> q x))"
  unfolding findOne_def
proof (induction coll)
  case Nil
  then show ?case by simp
next
  case (Cons a coll)
  show ?case
  proof (cases "q a")
    case True
    then show ?thesis
      apply auto
       apply (rule exI[of _ "[]"])
       apply simp
      apply (case_tac pre)
       apply auto
      done
  next
    case False
    then show ?thesis
      apply (simp add: Cons.IH)
      apply auto
       apply (rule_tac x="a # pre" in exI)
       apply simp
      apply (case_tac pre)
       apply auto
      done
  qed
qed

lemma findOneAndUpdate_None:
  "findOne q coll = None \<Longrightarrow> findOneAndUpdate q f coll = (None, coll)"
  unfolding findOne_def by (induction coll) (auto split: if_splits)

lemma findOneAndUpdate_first:
  "q d \<Longrightarrow> \<forall>x\<in>set pre. \<not> q x \<Longrightarrow>
     findOneAndUpdate q f (pre @ d # suf) = (Some d, pre @ f d # suf)"
  by (induction pre) auto

lemma find_limit_results:
  "length (find_limit P k coll) \<le> k \<and> (\<forall>d\<in>set (find_limit P k coll). d \<in> set coll \<and> P d)"
  unfolding find_limit_def by (auto dest: in_set_takeD)

lemma sort_desc_sorted: "sorted_wrt (\<lambda>x y. key x \<ge> key y) (sort_desc key xs)"
proof -
  have "sorted (map key (sort_key key xs))" by (rule sorted_sort_key)
  then have "sorted_wrt (\<lambda>x y. key x \<le> key y) (sort_key key xs)" by (simp add: sorted_map)
  then show ?thesis by (simp add: sort_desc_def sorted_wrt_rev)
qed

lemma set_sort_desc: "set (sort_desc key xs) = set xs"
  by (simp add: sort_desc_def)

section \<open>The matcher\<close>

lemma one_char_Nil [simp]: "one_char P [] = []"
  by (simp add: one_char_def)

lemma one_char_Cons [simp]: "one_char P (c # t) = (if P c then [t] else [])"
  by (simp add: one_char_def)

lemma step_Nil [simp]: "step f [] = []"
  by (simp add: step_def)

lemma step_single [simp]: "step f [t] = remdups (f t)"
  by (simp add: step_def)

lemma set_step: "set (step f S) = (\<Union>t\<in>set S. set (f t))"
  by (simp add: step_def)

lemma iter_exact_Nil [simp]: "iter_exact k f [] = []"
  by (induction k) auto

lemma iter_upto_Nil [simp]: "iter_upto k f [] = []"
  by (induction k) auto

lemma remdups_one_char [simp]: "remdups (one_char P s) = one_char P s"
  by (cases s) auto

lemma canonicalize_False [simp]: "canonicalize False c = c"
  by (simp add: canonicalize_def)

text \<open>
  A quantifier over a single-character body, from \<open>s\<close>: the positions after the first
  \<open>j\<close> characters, for every \<open>j\<close> within the bound and within the run of characters that
  the body accepts.
\<close>

lemma set_iter_upto_one_char:
  "set (iter_upto k (one_char P) [s]) = {drop j s | j. j \<le> k \<and> j \<le> length (takeWhile P s)}"
proof (induction k arbitrary: s)
  case 0
  then show ?case by auto
next
  case (Suc k)
  show ?case
  proof (cases s)
    case Nil
    then show ?thesis by auto
  next
    case (Cons c t)
    show ?thesis
    proof (cases "P c")
      case False
      then show ?thesis using Cons by auto
    next
      case True
      have "set (iter_upto (Suc k) (one_char P) [s]) = insert s (set (iter_upto k (one_char P) [t]))"
        using Cons True by simp
      also have "\<dots> = insert s {drop j t | j. j \<le> k \<and> j \<le> length (takeWhile P t)}"
        by (simp add: Suc.IH)
      also have "\<dots> = {drop j s | j. j \<le> Suc k \<and> j \<le> length (takeWhile P s)}"
      proof (intro set_eqI iffI)
        fix x assume "x \<in> insert s {drop j t | j. j \<le> k \<and> j \<le> length (takeWhile P t)}"
        then consider "x = s" | j where "x = drop j t" "j \<le> k" "j \<le> length (takeWhile P t)"
          by auto
        then show "x \<in> {drop j s | j. j \<le> Suc k \<and> j \<le> length (takeWhile P s)}"
        proof cases
          case 1
          then show ?thesis by (auto intro: exI[of _ 0])
        next
          case 2
          then show ?thesis using Cons True by (auto intro!: exI[of _ "Suc j"])
        qed
      next
        fix x assume "x \<in> {drop j s | j. j \<le> Suc k \<and> j \<le> length (takeWhile P s)}"
        then obtain j where j: "x = drop j s" "j \<le> Suc k" "j \<le> length (takeWhile P s)" by auto
        show "x \<in> insert s {drop j t | j. j \<le> k \<and> j \<le> length (takeWhile P t)}"
        proof (cases j)
          case 0
          then show ?thesis using j by simp
        next
          case (Suc j')
          then show ?thesis using j Cons True by (auto intro!: exI[of _ j'])
        qed
      qed
      finally show ?thesis .
    qed
  qed
qed

lemma set_rx_match_Rep0:
  assumes "\<And>t. rx_match ic n r t = one_char P t"
  shows "set (rx_match ic n (Rep 0 hi r) s) =
     {drop j s | j. j \<le> (case hi of None \<Rightarrow> length s | Some h \<Rightarrow> h) \<and> j \<le> length (takeWhile P s)}"
proof -
  have "rx_match ic n r = one_char P" using assms by (intro ext)
  then show ?thesis by (cases hi) (simp_all add: set_iter_upto_one_char)
qed

lemma set_rx_match_Seq:
  "set (rx_match ic n (Seq r1 r2) s) = (\<Union>t\<in>set (rx_match ic n r1 s). set (rx_match ic n r2 t))"
  by (simp add: set_step)

lemma rx_nonempty_Seq:
  "rx_match ic n (Seq r1 r2) s \<noteq> [] \<longleftrightarrow> (\<exists>t\<in>set (rx_match ic n r1 s). rx_match ic n r2 t \<noteq> [])"
proof -
  have "rx_match ic n (Seq r1 r2) s \<noteq> [] \<longleftrightarrow> set (rx_match ic n (Seq r1 r2) s) \<noteq> {}"
    by (simp only: set_empty)
  also have "\<dots> \<longleftrightarrow> (\<exists>t\<in>set (rx_match ic n r1 s). set (rx_match ic n r2 t) \<noteq> {})"
    unfolding set_rx_match_Seq by auto
  finally show ?thesis by (simp only: set_empty)
qed

lemma suffix_same_length: "t \<in> set (suffixes s) \<and> length t = length s \<longleftrightarrow> t = s"
  by (auto simp: suffix_def)

text \<open>A pattern that starts with \<open>^\<close> matches only from the start of the input.\<close>

lemma rx_test_Bol:
  "rx_test ic (Seq Bol r) s \<longleftrightarrow> rx_match ic (length s) r s \<noteq> []"
proof -
  have "rx_test ic (Seq Bol r) s \<longleftrightarrow>
     (\<exists>t\<in>set (suffixes s). \<exists>t'\<in>set (rx_match ic (length s) Bol t). rx_match ic (length s) r t' \<noteq> [])"
    unfolding rx_test_def list_ex_iff rx_nonempty_Seq ..
  also have "\<dots> \<longleftrightarrow> (\<exists>t. (t \<in> set (suffixes s) \<and> length t = length s) \<and> rx_match ic (length s) r t \<noteq> [])"
    by (auto split: if_splits)
  also have "\<dots> \<longleftrightarrow> rx_match ic (length s) r s \<noteq> []"
    unfolding suffix_same_length by simp
  finally show ?thesis .
qed

lemma rx_nonempty_NegLook:
  "rx_match ic n (Seq (NegLook a) r) s \<noteq> [] \<longleftrightarrow> rx_match ic n a s = [] \<and> rx_match ic n r s \<noteq> []"
  unfolding rx_nonempty_Seq by simp

lemma rx_nonempty_Chr_Chr:
  "rx_match False n (Seq (Chr a) (Chr b)) s \<noteq> [] \<longleftrightarrow> (\<exists>t. s = a # b # t)"
proof (cases s)
  case Nil
  then show ?thesis unfolding rx_nonempty_Seq by simp
next
  case (Cons c t)
  then show ?thesis unfolding rx_nonempty_Seq by (cases t) auto
qed

lemma rx_nonempty_Chr_Eol:
  "rx_match False n (Seq (Chr a) Eol) s \<noteq> [] \<longleftrightarrow> s = [a]"
  unfolding rx_nonempty_Seq by (cases s) auto

lemma set_dot_star:
  "set (rx_match ic n (Rep 0 None Dot) s) =
     {drop j s | j. j \<le> length (takeWhile (\<lambda>c. \<not> isLineTerminator c) s)}"
proof -
  have "j \<le> length (takeWhile P s) \<Longrightarrow> j \<le> length s" for j and P :: "char \<Rightarrow> bool"
    using length_takeWhile_le[of P s] by simp
  then show ?thesis
    by (subst set_rx_match_Rep0[where P="\<lambda>c. \<not> isLineTerminator c"]) auto
qed

lemma take_within_takeWhile:
  "j \<le> length (takeWhile P s) \<Longrightarrow> c \<in> set (take j s) \<Longrightarrow> P c"
proof -
  assume j: "j \<le> length (takeWhile P s)" and c: "c \<in> set (take j s)"
  have "take j s = take j (takeWhile P s @ dropWhile P s)" by simp
  also have "\<dots> = take j (takeWhile P s)" using j by (simp only: take_append) simp
  finally have "c \<in> set (takeWhile P s)" using c by (auto dest: in_set_takeD)
  then show "P c" by (rule set_takeWhileD[THEN conjunct2])
qed

lemma takeWhile_full: "length (takeWhile P t) = length t \<longleftrightarrow> (\<forall>c\<in>set t. P c)"
  by (induction t) auto

section \<open>The email pattern at some addresses\<close>

lemma emailRegex_accepts:
  "rx_test False emailRegex ''alice@example.com''"
  "rx_test False emailRegex ''a.b-c@mail.example.org''"
  "rx_test False emailRegex ''a.b@[1.22.333.4]''"
  by code_simp+

lemma emailRegex_refuses:
  "\<not> rx_test False emailRegex ''alice@example''"
  "\<not> rx_test False emailRegex ''a..b@example.com''"
  "\<not> rx_test False emailRegex ''a b@example.com''"
  "\<not> rx_test False emailRegex ''alice@example.c''"
  "\<not> rx_test False emailRegex ''@example.com''"
  by code_simp+

section \<open>The username pattern\<close>

text \<open>The two lookaheads: \<open>(?!.*\.\.)\<close> and \<open>(?!.*\.$)\<close>.\<close>

lemma lookahead_periods:
  "rx_match False n (Seq (Rep 0 None Dot) (Seq (Chr CHR ''.'') (Chr CHR ''.''))) s \<noteq> [] \<longleftrightarrow>
     (\<exists>p t. s = p @ ''..'' @ t \<and> (\<forall>c\<in>set p. \<not> isLineTerminator c))"
  (is "?L \<longleftrightarrow> ?R")
proof
  assume ?L
  then obtain j t where j: "j \<le> length (takeWhile (\<lambda>c. \<not> isLineTerminator c) s)"
    and t: "drop j s = CHR ''.'' # CHR ''.'' # t"
    unfolding rx_nonempty_Seq[of _ _ "Rep 0 None Dot"] set_dot_star rx_nonempty_Chr_Chr by blast
  have "s = take j s @ drop j s" by simp
  then have "s = take j s @ ''..'' @ t" using t by simp
  moreover have "\<forall>c\<in>set (take j s). \<not> isLineTerminator c"
    using take_within_takeWhile[OF j] by blast
  ultimately show ?R by blast
next
  assume ?R
  then obtain p t where p: "s = p @ ''..'' @ t" "\<forall>c\<in>set p. \<not> isLineTerminator c" by blast
  have "length p \<le> length (takeWhile (\<lambda>c. \<not> isLineTerminator c) s)"
    using p by (simp add: takeWhile_append2)
  moreover have "drop (length p) s = CHR ''.'' # CHR ''.'' # t" using p by simp
  ultimately show ?L
    unfolding rx_nonempty_Seq[of _ _ "Rep 0 None Dot"] set_dot_star rx_nonempty_Chr_Chr by blast
qed

lemma lookahead_final_period:
  "rx_match False n (Seq (Rep 0 None Dot) (Seq (Chr CHR ''.'') Eol)) s \<noteq> [] \<longleftrightarrow>
     (\<exists>p. s = p @ ''.'' \<and> (\<forall>c\<in>set p. \<not> isLineTerminator c))"
  (is "?L \<longleftrightarrow> ?R")
proof
  assume ?L
  then obtain j where j: "j \<le> length (takeWhile (\<lambda>c. \<not> isLineTerminator c) s)"
    and t: "drop j s = [CHR ''.'']"
    unfolding rx_nonempty_Seq[of _ _ "Rep 0 None Dot"] set_dot_star rx_nonempty_Chr_Eol by blast
  have "s = take j s @ drop j s" by simp
  then have "s = take j s @ ''.''" using t by simp
  moreover have "\<forall>c\<in>set (take j s). \<not> isLineTerminator c"
    using take_within_takeWhile[OF j] by blast
  ultimately show ?R by blast
next
  assume ?R
  then obtain p where p: "s = p @ ''.''" "\<forall>c\<in>set p. \<not> isLineTerminator c" by blast
  have "length p \<le> length (takeWhile (\<lambda>c. \<not> isLineTerminator c) s)"
    using p by (simp add: takeWhile_append2)
  moreover have "drop (length p) s = [CHR ''.'']" using p by simp
  ultimately show ?L
    unfolding rx_nonempty_Seq[of _ _ "Rep 0 None Dot"] set_dot_star rx_nonempty_Chr_Eol by blast
qed

lemma class_nonword [simp]: "class_has False [CNonWord] c \<longleftrightarrow> \<not> isWordChar c"
  by (simp add: class_has_def)

lemma class_word_period [simp]:
  "class_has False [CWord, CChar CHR ''.''] c \<longleftrightarrow> isWordChar c \<or> c = CHR ''.''"
  by (simp add: class_has_def)

text \<open>The tail \<open>[\w.]{0,29}$\<close>.\<close>

lemma username_body:
  "rx_match False n (Seq (Rep 0 (Some 29) (Cls False [CWord, CChar CHR ''.''])) Eol) t \<noteq> [] \<longleftrightarrow>
     length t \<le> 29 \<and> (\<forall>c\<in>set t. isWordChar c \<or> c = CHR ''.'')"
  (is "?L \<longleftrightarrow> ?R")
proof -
  let ?P = "\<lambda>c. isWordChar c \<or> c = CHR ''.''"
  have set: "set (rx_match False n (Rep 0 (Some 29) (Cls False [CWord, CChar CHR ''.''])) t) =
     {drop j t | j. j \<le> 29 \<and> j \<le> length (takeWhile ?P t)}"
    by (subst set_rx_match_Rep0[where P="?P"]) simp_all
  have "?L \<longleftrightarrow> (\<exists>j. j \<le> 29 \<and> j \<le> length (takeWhile ?P t) \<and> drop j t = [])"
    unfolding rx_nonempty_Seq set by (auto split: if_splits)
  also have "\<dots> \<longleftrightarrow> length t \<le> 29 \<and> length (takeWhile ?P t) = length t"
  proof
    assume "\<exists>j. j \<le> 29 \<and> j \<le> length (takeWhile ?P t) \<and> drop j t = []"
    then obtain j where "j \<le> 29" "j \<le> length (takeWhile ?P t)" "length t \<le> j" by auto
    moreover have "length (takeWhile ?P t) \<le> length t" by (rule length_takeWhile_le)
    ultimately show "length t \<le> 29 \<and> length (takeWhile ?P t) = length t" by linarith
  next
    assume "length t \<le> 29 \<and> length (takeWhile ?P t) = length t"
    then show "\<exists>j. j \<le> 29 \<and> j \<le> length (takeWhile ?P t) \<and> drop j t = []"
      by (intro exI[of _ "length t"]) simp
  qed
  also have "length (takeWhile ?P t) = length t \<longleftrightarrow> (\<forall>c\<in>set t. ?P c)"
    by (rule takeWhile_full)
  finally show ?thesis .
qed

lemma word_or_period_not_terminator:
  "isWordChar c \<or> c = CHR ''.'' \<Longrightarrow> \<not> isLineTerminator c"
  by (auto simp: isWordChar_def isLineTerminator_def code_unit_def Let_def)

lemma usernameRegex_parts:
  "rx_test False usernameRegex u \<longleftrightarrow>
     \<not> (\<exists>p t. u = p @ ''..'' @ t \<and> (\<forall>c\<in>set p. \<not> isLineTerminator c)) \<and>
     \<not> (\<exists>p. u = p @ ''.'' \<and> (\<forall>c\<in>set p. \<not> isLineTerminator c)) \<and>
     (\<exists>c t. u = c # t \<and> isWordChar c \<and> length t \<le> 29 \<and> (\<forall>x\<in>set t. isWordChar x \<or> x = CHR ''.''))"
proof -
  have first: "rx_match False n (Seq (Cls True [CNonWord]) r) s \<noteq> [] \<longleftrightarrow>
      (\<exists>c t. s = c # t \<and> isWordChar c \<and> rx_match False n r t \<noteq> [])" for n r s
    unfolding rx_nonempty_Seq by (cases s) auto
  have l1: "rx_match False n (Seq (Rep 0 None Dot) (Seq (Chr CHR ''.'') (Chr CHR ''.''))) s = [] \<longleftrightarrow>
      \<not> (\<exists>p t. s = p @ ''..'' @ t \<and> (\<forall>c\<in>set p. \<not> isLineTerminator c))" for n s
    using lookahead_periods[of n s] by blast
  have l2: "rx_match False n (Seq (Rep 0 None Dot) (Seq (Chr CHR ''.'') Eol)) s = [] \<longleftrightarrow>
      \<not> (\<exists>p. s = p @ ''.'' \<and> (\<forall>c\<in>set p. \<not> isLineTerminator c))" for n s
    using lookahead_final_period[of n s] by blast
  show ?thesis
    unfolding usernameRegex_def seqs.simps rx_test_Bol rx_nonempty_NegLook first username_body l1 l2
    by (rule refl)
qed

text \<open>The username literal of the source accepts what the specification's words describe.\<close>

lemma usernameRegex_test: "rx_test False usernameRegex u \<longleftrightarrow> username_pattern u"
proof
  assume "rx_test False usernameRegex u"
  then have a: "\<not> (\<exists>p t. u = p @ ''..'' @ t \<and> (\<forall>c\<in>set p. \<not> isLineTerminator c))"
    and b: "\<not> (\<exists>p. u = p @ ''.'' \<and> (\<forall>c\<in>set p. \<not> isLineTerminator c))"
    and c: "\<exists>c t. u = c # t \<and> isWordChar c \<and> length t \<le> 29 \<and> (\<forall>x\<in>set t. isWordChar x \<or> x = CHR ''.'')"
    unfolding usernameRegex_parts by blast+
  from c obtain c0 t where u: "u = c0 # t" "isWordChar c0" "length t \<le> 29"
    "\<forall>x\<in>set t. isWordChar x \<or> x = CHR ''.''" by blast
  then have all: "\<forall>x\<in>set u. isWordChar x \<or> x = CHR ''.''" by auto
  then have nolt: "\<forall>x\<in>set u. \<not> isLineTerminator x"
    using word_or_period_not_terminator by blast
  have "\<not> sublist ''..'' u"
  proof
    assume "sublist ''..'' u"
    then obtain p s where "u = p @ ''..'' @ s" unfolding sublist_def by blast
    moreover from this nolt have "\<forall>c\<in>set p. \<not> isLineTerminator c" by auto
    ultimately show False using a by blast
  qed
  moreover have "last u \<noteq> CHR ''.''"
  proof
    assume l: "last u = CHR ''.''"
    have "u = butlast u @ [last u]" using u(1) by simp
    then have "u = butlast u @ ''.''" using l by simp
    moreover have "\<forall>c\<in>set (butlast u). \<not> isLineTerminator c"
      using nolt by (meson in_set_butlastD)
    ultimately show False using b by blast
  qed
  ultimately show "username_pattern u"
    unfolding username_pattern_def using u all by auto
next
  assume p: "username_pattern u"
  then obtain c0 t where u: "u = c0 # t" unfolding username_pattern_def by (cases u) auto
  have "\<not> (\<exists>p t. u = p @ ''..'' @ t \<and> (\<forall>c\<in>set p. \<not> isLineTerminator c))"
    using p unfolding username_pattern_def sublist_def by blast
  moreover have "\<not> (\<exists>p. u = p @ ''.'' \<and> (\<forall>c\<in>set p. \<not> isLineTerminator c))"
    using p unfolding username_pattern_def by auto
  moreover have "\<exists>c t. u = c # t \<and> isWordChar c \<and> length t \<le> 29 \<and>
      (\<forall>x\<in>set t. isWordChar x \<or> x = CHR ''.'')"
    using p u unfolding username_pattern_def by auto
  ultimately show "rx_test False usernameRegex u"
    unfolding usernameRegex_parts by blast
qed

section \<open>Patterns of literal characters\<close>

lemma code_unit_inject: "code_unit c = code_unit d \<longleftrightarrow> c = d"
  by (simp add: code_unit_def)

lemma code_unit_char_of: "n < 256 \<Longrightarrow> code_unit (char_of n) = n"
  by (simp add: code_unit_def)

lemma code_unit_toLowerCase:
  "code_unit (toLowerCase_char c) =
     (let n = code_unit c in
      if (65 \<le> n \<and> n \<le> 90) \<or> (192 \<le> n \<and> n \<le> 214) \<or> (216 \<le> n \<and> n \<le> 222) then n + 32 else n)"
  by (auto simp: toLowerCase_char_def Let_def code_unit_char_of)

lemma code_unit_canonicalize:
  "code_unit (canonicalize True c) =
     (let n = code_unit c in
      if (97 \<le> n \<and> n \<le> 122) \<or> (224 \<le> n \<and> n \<le> 246) \<or> (248 \<le> n \<and> n \<le> 254) then n - 32 else n)"
  by (auto simp: canonicalize_def Let_def code_unit_char_of)

text \<open>The two case mappings identify the same characters.\<close>

lemma lower_canonicalize: "toLowerCase_char (canonicalize True c) = toLowerCase_char c"
proof -
  have "code_unit (toLowerCase_char (canonicalize True c)) = code_unit (toLowerCase_char c)"
    unfolding code_unit_toLowerCase[of "canonicalize True c"] code_unit_canonicalize
      code_unit_toLowerCase[of c] Let_def
    by (cases "(97 \<le> code_unit c \<and> code_unit c \<le> 122) \<or> (224 \<le> code_unit c \<and> code_unit c \<le> 246) \<or>
               (248 \<le> code_unit c \<and> code_unit c \<le> 254)") auto
  then show ?thesis by (simp only: code_unit_inject)
qed

lemma canonicalize_lower: "canonicalize True (toLowerCase_char c) = canonicalize True c"
proof -
  have "code_unit (canonicalize True (toLowerCase_char c)) = code_unit (canonicalize True c)"
    unfolding code_unit_canonicalize[of "toLowerCase_char c"] code_unit_toLowerCase
      code_unit_canonicalize[of c] Let_def
    by (cases "(65 \<le> code_unit c \<and> code_unit c \<le> 90) \<or> (192 \<le> code_unit c \<and> code_unit c \<le> 214) \<or>
               (216 \<le> code_unit c \<and> code_unit c \<le> 222)") auto
  then show ?thesis by (simp only: code_unit_inject)
qed

lemma rx_match_chars:
  "rx_match True n (foldr Seq (map Chr q) Eps) s =
     (if prefix (map (canonicalize True) q) (map (canonicalize True) s)
      then [drop (length q) s] else [])"
proof (induction q arbitrary: s)
  case Nil
  then show ?case by simp
next
  case (Cons c q)
  show ?case
  proof (cases s)
    case Nil
    then show ?thesis by simp
  next
    case (Cons x t)
    then show ?thesis using Cons.IH[of t] by auto
  qed
qed

lemma suffix_of_map:
  "suffix ys (map f s) \<longleftrightarrow> (\<exists>t. suffix t s \<and> ys = map f t)"
proof
  assume "suffix ys (map f s)"
  then obtain zs where "map f s = zs @ ys" by (auto simp: suffix_def)
  then obtain a b where "s = a @ b" "ys = map f b" by (auto simp: map_eq_append_conv)
  then show "\<exists>t. suffix t s \<and> ys = map f t" by (auto simp: suffix_def)
next
  assume "\<exists>t. suffix t s \<and> ys = map f t"
  then show "suffix ys (map f s)" by (auto simp: suffix_def)
qed

lemma rx_test_chars:
  "rx_test True (foldr Seq (map Chr q) Eps) s \<longleftrightarrow>
     sublist (map (canonicalize True) q) (map (canonicalize True) s)"
proof -
  have "rx_test True (foldr Seq (map Chr q) Eps) s \<longleftrightarrow>
     (\<exists>t. suffix t s \<and> prefix (map (canonicalize True) q) (map (canonicalize True) t))"
    by (auto simp add: rx_test_def list_ex_iff rx_match_chars simp del: rx_match.simps)
  also have "\<dots> \<longleftrightarrow> (\<exists>ys. suffix ys (map (canonicalize True) s) \<and> prefix (map (canonicalize True) q) ys)"
    unfolding suffix_of_map by blast
  finally show ?thesis unfolding sublist_altdef' .
qed

lemma sublist_case_fold:
  "sublist (map (canonicalize True) q) (map (canonicalize True) s) \<longleftrightarrow>
     sublist (toLowerCase q) (toLowerCase s)"
proof
  assume "sublist (map (canonicalize True) q) (map (canonicalize True) s)"
  then have "sublist (map toLowerCase_char (map (canonicalize True) q))
                     (map toLowerCase_char (map (canonicalize True) s))"
    by (rule map_mono_sublist)
  then show "sublist (toLowerCase q) (toLowerCase s)"
    by (simp add: toLowerCase_def lower_canonicalize comp_def)
next
  assume "sublist (toLowerCase q) (toLowerCase s)"
  then have "sublist (map (canonicalize True) (toLowerCase q)) (map (canonicalize True) (toLowerCase s))"
    by (rule map_mono_sublist)
  then show "sublist (map (canonicalize True) q) (map (canonicalize True) s)"
    by (simp add: toLowerCase_def canonicalize_lower comp_def)
qed

text \<open>
  A pattern without syntax characters, compiled with the \<open>i\<close> flag, tests for
  case-insensitive containment.
\<close>

lemma RegExp_i_literal:
  assumes "\<forall>c\<in>set q. \<not> isSyntaxCharacter c"
  shows "RegExp_i engine q = Inr (contains_ci q)"
proof -
  have p: "plain_pattern q" using assms by (simp add: plain_pattern_def list_all_iff)
  have "CHR ''.'' \<notin> set q" using assms by (auto simp: isSyntaxCharacter_def)
  then have m: "map plain_atom q = map Chr q" by (auto simp: plain_atom_def)
  have "rx_test True (foldr Seq (map Chr q) Eps) = contains_ci q"
    by (intro ext) (simp add: rx_test_chars sublist_case_fold contains_ci_def del: rx_match.simps)
  then show ?thesis unfolding RegExp_i_def m using p by simp
qed

lemma searchUsers_compiled:
  "q \<noteq> [] \<Longrightarrow> RegExp_i engine q = Inr re \<Longrightarrow>
     searchUsers engine (Some q) User (Some a) =
       Inr (find_limit (\<lambda>u. (re (username u) \<or> re (fullName u)) \<and> user_id u \<noteq> auth_id a) 50 User)"
  by (simp add: searchUsers_def)

lemma searchUsers_refused:
  "q \<noteq> [] \<Longrightarrow> RegExp_i engine q = Inl e \<Longrightarrow> searchUsers engine (Some q) User authUser = Inl e"
  by (simp add: searchUsers_def)

section \<open>The context builder: claims C3 and C4\<close>

text \<open>
  Two of the three parts of the behaviour hold as the specification words them: the
  context of a persistent connection is returned unchanged and nothing is verified; with
  the credential \<open>'null'\<close> the context has \<open>authUser\<close> undefined and nothing is verified.
  Every other credential, the absent header too, is handed to \<open>jwt.verify\<close>.
\<close>

lemma context_connection:
  "connection i = Some c \<Longrightarrow> createApolloServer_context jwt_verify models i = (Fulfilled c, [])"
  by (simp add: createApolloServer_context_def)

lemma context_sentinel:
  "connection i = None \<Longrightarrow> req i = Some (Some ''null'') \<Longrightarrow>
     createApolloServer_context jwt_verify models i =
       (Fulfilled (Object_assign [''authUser'' \<mapsto> AuthUser None] (map_option Handle \<circ> models)), [])"
  by (simp add: createApolloServer_context_def)

lemma context_verifies:
  "connection i = None \<Longrightarrow> req i = Some authorization \<Longrightarrow> authorization \<noteq> Some ''null'' \<Longrightarrow>
     snd (createApolloServer_context jwt_verify models i) = [authorization]"
  by (simp add: createApolloServer_context_def split: promise.split)

text \<open>
  When \<open>jwt.verify\<close> returns a falsy payload the request fails; when it throws, the
  context function never settles.
\<close>

lemma context_verify_falsy:
  "connection i = None \<Longrightarrow> req i = Some authorization \<Longrightarrow> authorization \<noteq> Some ''null'' \<Longrightarrow>
     jwt_verify authorization = FalsyPayload \<Longrightarrow>
     createApolloServer_context jwt_verify models i = (Rejected Unauthenticated, [authorization])"
  by (simp add: createApolloServer_context_def checkAuthorization_def)

lemma context_verify_throws:
  "connection i = None \<Longrightarrow> req i = Some authorization \<Longrightarrow> authorization \<noteq> Some ''null'' \<Longrightarrow>
     jwt_verify authorization = Throws \<Longrightarrow>
     createApolloServer_context jwt_verify models i = (Pending, [authorization])"
  by (simp add: createApolloServer_context_def checkAuthorization_def)

text \<open>
  Claim C3, at a request whose token the verifier refuses. The specification asks that
  the request fail with an authentication error when verification fails. For a request
  with the authorization header \<open>garbage\<close> and a verifier that throws on it, the token is
  handed to \<open>jwt.verify\<close> and the promise of the context function never settles: the
  request gets no context and no error.
\<close>

theorem context_refused_token_never_settles:
  "createApolloServer_context jwt_verify_example models
     \<lparr>req = Some (Some ''garbage''), connection = None\<rparr> = (Pending, [Some ''garbage''])"
  by (simp add: createApolloServer_context_def checkAuthorization_def jwt_verify_example_def)

text \<open>
  Claim C4. For every verifier, every \<open>models\<close> and every request without a connection
  context: when the builder yields a context, the context maps every name of \<open>models\<close> to
  the handle that \<open>models\<close> gives it; the claims appear under the name \<open>authUser\<close> only;
  and every other name holds what \<open>models\<close> holds there.
\<close>

theorem context_store_handles:
  "createApolloServer_context jwt_verify models i = (Fulfilled ctx, calls) \<Longrightarrow> connection i = None \<Longrightarrow>
     (\<forall>name h. models name = Some h \<longrightarrow> ctx name = Some (Handle h)) \<and>
     (\<forall>name v. ctx name = Some (AuthUser v) \<longrightarrow> name = ''authUser'') \<and>
     (\<forall>name. name \<noteq> ''authUser'' \<longrightarrow> ctx name = map_option Handle (models name))"
  by (auto simp: createApolloServer_context_def Object_assign_def map_add_def
      split: option.splits if_splits promise.splits)

text \<open>
  The claim at a request with the token that the example verifier accepts, and models
  under the names \<open>User\<close> and \<open>Post\<close>.
\<close>

theorem context_store_handles_witness:
  "\<exists>ctx calls.
     createApolloServer_context jwt_verify_example [''User'' \<mapsto> (1::nat), ''Post'' \<mapsto> 2]
       \<lparr>req = Some (Some ''valid''), connection = None\<rparr> = (Fulfilled ctx, calls) \<and>
     ctx ''User'' = Some (Handle 1) \<and> ctx ''Post'' = Some (Handle 2) \<and>
     ctx ''Message'' = None \<and> ctx ''authUser'' = Some (AuthUser (Some alice_claims))"
proof -
  let ?models = "[''User'' \<mapsto> (1::nat), ''Post'' \<mapsto> 2]"
  let ?i = "\<lparr>req = Some (Some ''valid''), connection = None\<rparr> :: (auth_user, nat) integration"
  let ?ctx = "Object_assign [''authUser'' \<mapsto> AuthUser (Some alice_claims)] (map_option Handle \<circ> ?models)"
  have e: "createApolloServer_context jwt_verify_example ?models ?i = (Fulfilled ?ctx, [Some ''valid''])"
    by (simp add: createApolloServer_context_def checkAuthorization_def jwt_verify_example_def)
  have c: "connection ?i = None" by simp
  have h: "(\<forall>name h. ?models name = Some h \<longrightarrow> ?ctx name = Some (Handle h)) \<and>
     (\<forall>name v. ?ctx name = Some (AuthUser v) \<longrightarrow> name = ''authUser'') \<and>
     (\<forall>name. name \<noteq> ''authUser'' \<longrightarrow> ?ctx name = map_option Handle (?models name))"
    by (rule context_store_handles[OF e c])
  have "?ctx ''User'' = Some (Handle 1)" using h by simp
  moreover have "?ctx ''Post'' = Some (Handle 2)" using h by simp
  moreover have "?ctx ''Message'' = None" using h by simp
  moreover have "?ctx ''authUser'' = Some (AuthUser (Some alice_claims))"
    by (simp add: Object_assign_def)
  ultimately show ?thesis using e by blast
qed

section \<open>Sign-in: claim C5\<close>

text \<open>
  With a password that is a string, sign-in does what the specification says: it fails
  with \<open>NotFound\<close> exactly when no stored user has the email or the username
  \<open>emailOrUsername\<close>; when such a user exists, with \<open>u\<close> the one that the store finds, it
  fails with \<open>InvalidCredentials\<close> exactly when the password does not verify against the
  stored hash of \<open>u\<close>, and when the password verifies it returns the token that
  \<open>generateToken\<close> makes for \<open>u\<close> with the expiry \<open>1y\<close>.
\<close>

lemma signin_with_password:
  "(signin bcrypt_compare generateToken SECRET emailOrUsername (Some pw) User = Inl NotFound
      \<longleftrightarrow> \<not> (\<exists>u\<in>set User. email u = emailOrUsername \<or> username u = emailOrUsername)) \<and>
   (\<forall>u. findOne (\<lambda>u. email u = emailOrUsername \<or> username u = emailOrUsername) User = Some u \<longrightarrow>
      (signin bcrypt_compare generateToken SECRET emailOrUsername (Some pw) User = Inl InvalidCredentials
         \<longleftrightarrow> \<not> bcrypt_compare pw (password u)) \<and>
      (bcrypt_compare pw (password u) \<longrightarrow>
         signin bcrypt_compare generateToken SECRET emailOrUsername (Some pw) User =
           Inr (generateToken u SECRET ''1y'')))"
proof (intro conjI allI impI)
  let ?q = "\<lambda>u. email u = emailOrUsername \<or> username u = emailOrUsername"
  show "signin bcrypt_compare generateToken SECRET emailOrUsername (Some pw) User = Inl NotFound
      \<longleftrightarrow> \<not> (\<exists>u\<in>set User. ?q u)"
  proof (cases "findOne ?q User")
    case None
    moreover from None have "\<not> (\<exists>u\<in>set User. ?q u)" by (simp add: findOne_None_iff)
    ultimately show ?thesis by (simp add: signin_def)
  next
    case (Some u)
    moreover from findOne_SomeD[OF Some] have "\<exists>u\<in>set User. ?q u" by blast
    ultimately show ?thesis by (simp add: signin_def bcrypt_compare_call_def)
  qed
next
  fix u
  assume "findOne (\<lambda>u. email u = emailOrUsername \<or> username u = emailOrUsername) User = Some u"
  then show "signin bcrypt_compare generateToken SECRET emailOrUsername (Some pw) User = Inl InvalidCredentials
         \<longleftrightarrow> \<not> bcrypt_compare pw (password u)"
    by (simp add: signin_def bcrypt_compare_call_def)
next
  fix u
  assume "findOne (\<lambda>u. email u = emailOrUsername \<or> username u = emailOrUsername) User = Some u"
    and "bcrypt_compare pw (password u)"
  then show "signin bcrypt_compare generateToken SECRET emailOrUsername (Some pw) User =
           Inr (generateToken u SECRET ''1y'')"
    by (simp add: signin_def bcrypt_compare_call_def AUTH_TOKEN_EXPIRY_def)
qed

text \<open>Sign-in at an unknown name, at a wrong password and at the right password.\<close>

lemma signin_with_password_examples:
  "signin bcrypt_compare_example generateToken_example ''s3cr3t'' ''carol'' (Some ''secret1'') [alice, bob]
     = Inl NotFound"
  "signin bcrypt_compare_example generateToken_example ''s3cr3t'' ''bob@example.com'' (Some ''wrong'')
     [alice, bob] = Inl InvalidCredentials"
  "signin bcrypt_compare_example generateToken_example ''s3cr3t'' ''bob@example.com'' (Some ''canwefixit'')
     [alice, bob] = Inr (''u2'', ''s3cr3t'', ''1y'')"
  by code_simp+

text \<open>
  Without a password, an unknown name still fails with \<open>NotFound\<close>; for a stored user the
  comparison rejects and sign-in fails with the library's error.
\<close>

lemma signin_without_password:
  "signin bcrypt_compare generateToken SECRET emailOrUsername None User =
     (case findOne (\<lambda>u. email u = emailOrUsername \<or> username u = emailOrUsername) User of
        None \<Rightarrow> Inl NotFound
      | Some u \<Rightarrow> Inl IllegalArguments)"
  by (simp add: signin_def bcrypt_compare_call_def split: option.split)

text \<open>
  Claim C5, at the sign-in of bob without a password. The specification asks that
  sign-in for a stored user fail with \<open>InvalidCredentials\<close> whenever the password does not
  verify. The input type allows the password to be left out; bob is stored, no password
  verifies, and sign-in fails with \<open>Illegal arguments\<close> instead.
\<close>

theorem signin_absent_password:
  "signin bcrypt_compare_example generateToken_example ''s3cr3t'' ''bob'' None [alice, bob]
     = Inl IllegalArguments"
  by code_simp

section \<open>The user queries: claims C6, C8 and C9\<close>

text \<open>
  Claim C6 as the specification words it asks that \<open>getUser\<close> fail with
  \<open>InvalidArgument\<close> whenever both arguments are supplied. The resolver tests the
  arguments for truthiness, and the empty string is falsy: with the empty username and the
  id of alice, both supplied, it looks alice up by her id and returns her.
\<close>

theorem getUser_empty_username_counterexample:
  "getUser (Some []) (Some ''u1'') [alice, bob] example_posts =
     Inr \<lparr>doc = alice,
          populated_posts =
            [\<lparr>post_doc = \<lparr>post_id = ''p2'', author = ''u1'', createdAt = 200\<rparr>, author_doc = Some alice\<rparr>,
             \<lparr>post_doc = \<lparr>post_id = ''p1'', author = ''u1'', createdAt = 100\<rparr>, author_doc = Some alice\<rparr>]\<rparr>"
  by code_simp

text \<open>
  Claim C6, amended. An argument counts as supplied when it is truthy: present and not the
  empty string. For every pair of arguments \<open>username\<close> and \<open>id\<close>: \<open>getUser\<close> fails with
  \<open>InvalidArgument\<close> when both are supplied and when neither is; when exactly one is
  supplied it looks the user up by that field, fails with \<open>NotFound\<close> when no stored user
  has the value, and otherwise returns a stored user that has it, the one the store finds.
\<close>

theorem getUser_arguments:
  "(truthy username_arg \<and> truthy id_arg \<longrightarrow>
      getUser username_arg id_arg User Post = Inl (InvalidArgument Both)) \<and>
   (\<not> truthy username_arg \<and> \<not> truthy id_arg \<longrightarrow>
      getUser username_arg id_arg User Post = Inl (InvalidArgument Neither)) \<and>
   (truthy username_arg \<and> \<not> truthy id_arg \<longrightarrow>
      (if \<exists>u\<in>set User. Some (username u) = username_arg
       then \<exists>r. getUser username_arg id_arg User Post = Inr r \<and> doc r \<in> set User \<and>
              Some (username (doc r)) = username_arg \<and>
              findOne (\<lambda>u. Some (username u) = username_arg) User = Some (doc r)
       else getUser username_arg id_arg User Post = Inl NotFound)) \<and>
   (\<not> truthy username_arg \<and> truthy id_arg \<longrightarrow>
      (if \<exists>u\<in>set User. Some (user_id u) = id_arg
       then \<exists>r. getUser username_arg id_arg User Post = Inr r \<and> doc r \<in> set User \<and>
              Some (user_id (doc r)) = id_arg \<and>
              findOne (\<lambda>u. Some (user_id u) = id_arg) User = Some (doc r)
       else getUser username_arg id_arg User Post = Inl NotFound))"
proof (intro conjI impI)
  assume "truthy username_arg \<and> truthy id_arg"
  then show "getUser username_arg id_arg User Post = Inl (InvalidArgument Both)"
    by (simp add: getUser_def)
next
  assume "\<not> truthy username_arg \<and> \<not> truthy id_arg"
  then show "getUser username_arg id_arg User Post = Inl (InvalidArgument Neither)"
    by (simp add: getUser_def)
next
  assume a: "truthy username_arg \<and> \<not> truthy id_arg"
  let ?q = "\<lambda>u. Some (username u) = username_arg"
  show "if \<exists>u\<in>set User. ?q u
       then \<exists>r. getUser username_arg id_arg User Post = Inr r \<and> doc r \<in> set User \<and>
              Some (username (doc r)) = username_arg \<and> findOne ?q User = Some (doc r)
       else getUser username_arg id_arg User Post = Inl NotFound"
  proof (cases "findOne ?q User")
    case None
    moreover from None have "\<not> (\<exists>u\<in>set User. ?q u)" by (simp add: findOne_None_iff)
    ultimately show ?thesis using a by (simp add: getUser_def)
  next
    case (Some u)
    then have "u \<in> set User" "?q u" using findOne_SomeD[OF Some] by auto
    then show ?thesis using a Some by (auto simp: getUser_def)
  qed
next
  assume a: "\<not> truthy username_arg \<and> truthy id_arg"
  let ?q = "\<lambda>u. Some (user_id u) = id_arg"
  show "if \<exists>u\<in>set User. ?q u
       then \<exists>r. getUser username_arg id_arg User Post = Inr r \<and> doc r \<in> set User \<and>
              Some (user_id (doc r)) = id_arg \<and> findOne ?q User = Some (doc r)
       else getUser username_arg id_arg User Post = Inl NotFound"
  proof (cases "findOne ?q User")
    case None
    moreover from None have "\<not> (\<exists>u\<in>set User. ?q u)" by (simp add: findOne_None_iff)
    ultimately show ?thesis using a by (simp add: getUser_def)
  next
    case (Some u)
    then have "u \<in> set User" "?q u" using findOne_SomeD[OF Some] by auto
    then show ?thesis using a Some by (auto simp: getUser_def)
  qed
qed

text \<open>The claim with both arguments, with neither, with a known username and an unknown id.\<close>

theorem getUser_arguments_witness:
  "truthy (Some ''alice'') \<and> truthy (Some ''u1'') \<and> \<not> truthy None \<and> \<not> truthy (Some []) \<and>
   getUser (Some ''alice'') (Some ''u1'') [alice, bob] example_posts = Inl (InvalidArgument Both) \<and>
   getUser None (Some []) [alice, bob] example_posts = Inl (InvalidArgument Neither) \<and>
   (\<exists>r. getUser (Some ''bob'') None [alice, bob] example_posts = Inr r \<and>
        Some (username (doc r)) = Some ''bob'') \<and>
   getUser None (Some ''u9'') [alice, bob] example_posts = Inl NotFound"
proof -
  have t: "truthy (Some ''alice'')" "truthy (Some ''u1'')" "\<not> truthy None" "\<not> truthy (Some [])"
    "truthy (Some ''bob'')" "truthy (Some ''u9'')"
    by (simp_all add: truthy_def)
  have e: "\<exists>u\<in>set [alice, bob]. Some (username u) = Some ''bob''"
    by (simp add: bob_def)
  have n: "\<not> (\<exists>u\<in>set [alice, bob]. Some (user_id u) = Some ''u9'')"
    by (simp add: alice_def bob_def)
  have 1: "getUser (Some ''alice'') (Some ''u1'') [alice, bob] example_posts = Inl (InvalidArgument Both)"
    using getUser_arguments[of "Some ''alice''" "Some ''u1''" "[alice, bob]" example_posts] t by blast
  have 2: "getUser None (Some []) [alice, bob] example_posts = Inl (InvalidArgument Neither)"
    using getUser_arguments[of None "Some []" "[alice, bob]" example_posts] t by blast
  have "if \<exists>u\<in>set [alice, bob]. Some (username u) = Some ''bob''
       then \<exists>r. getUser (Some ''bob'') None [alice, bob] example_posts = Inr r \<and>
              doc r \<in> set [alice, bob] \<and> Some (username (doc r)) = Some ''bob'' \<and>
              findOne (\<lambda>u. Some (username u) = Some ''bob'') [alice, bob] = Some (doc r)
       else getUser (Some ''bob'') None [alice, bob] example_posts = Inl NotFound"
    using getUser_arguments[of "Some ''bob''" None "[alice, bob]" example_posts] t by blast
  then have 3: "\<exists>r. getUser (Some ''bob'') None [alice, bob] example_posts = Inr r \<and>
        Some (username (doc r)) = Some ''bob''"
    unfolding if_P[OF e] by blast
  have "if \<exists>u\<in>set [alice, bob]. Some (user_id u) = Some ''u9''
       then \<exists>r. getUser None (Some ''u9'') [alice, bob] example_posts = Inr r \<and>
              doc r \<in> set [alice, bob] \<and> Some (user_id (doc r)) = Some ''u9'' \<and>
              findOne (\<lambda>u. Some (user_id u) = Some ''u9'') [alice, bob] = Some (doc r)
       else getUser None (Some ''u9'') [alice, bob] example_posts = Inl NotFound"
    using getUser_arguments[of None "Some ''u9''" "[alice, bob]" example_posts] t by blast
  then have 4: "getUser None (Some ''u9'') [alice, bob] example_posts = Inl NotFound"
    unfolding if_not_P[OF n] .
  show ?thesis using t 1 2 3 4 by blast
qed

text \<open>
  Claim C8. \<open>getAuthUser\<close> returns \<open>null\<close> and leaves the store as it is when
  \<open>authUser\<close> is absent. When it is present and \<open>u\<close> is the first stored user with the
  authenticated email, the store afterwards differs from the store before in that
  document only, whose online flag is true; the result is \<open>u\<close> (as it was found) with
  the posts that \<open>u\<close> names, ordered by creation time descending. When no stored user has
  the email, the result is \<open>null\<close> and the store is as it was.
\<close>

theorem getAuthUser_outcomes:
  "getAuthUser None User Post = (None, User) \<and>
   (findOne (\<lambda>u. email u = auth_email a) User = None \<longrightarrow>
      getAuthUser (Some a) User Post = (None, User)) \<and>
   (\<forall>u. findOne (\<lambda>u. email u = auth_email a) User = Some u \<longrightarrow>
      (\<exists>pre suf. User = pre @ u # suf \<and> (\<forall>v\<in>set pre. email v \<noteq> auth_email a) \<and>
         getAuthUser (Some a) User Post =
           (Some \<lparr>doc = u, populated_posts = populate_posts Post u\<rparr>,
            pre @ u\<lparr>isOnline := True\<rparr> # suf)) \<and>
      email u = auth_email a \<and>
      sorted_wrt (\<lambda>p p'. createdAt p \<ge> createdAt p') (populate_posts Post u) \<and>
      set (populate_posts Post u) = {p \<in> set Post. post_id p \<in> set (posts u)})"
proof (intro conjI allI impI)
  show "getAuthUser None User Post = (None, User)" by (simp add: getAuthUser_def)
next
  assume "findOne (\<lambda>u. email u = auth_email a) User = None"
  then show "getAuthUser (Some a) User Post = (None, User)"
    by (simp add: getAuthUser_def findOneAndUpdate_None)
next
  fix u assume f: "findOne (\<lambda>u. email u = auth_email a) User = Some u"
  then obtain pre suf where p: "User = pre @ u # suf" "email u = auth_email a"
    "\<forall>v\<in>set pre. email v \<noteq> auth_email a"
    unfolding findOne_first by blast
  have "getAuthUser (Some a) User Post =
           (Some \<lparr>doc = u, populated_posts = populate_posts Post u\<rparr>,
            pre @ u\<lparr>isOnline := True\<rparr> # suf)"
    using p by (simp add: getAuthUser_def findOneAndUpdate_first)
  with p show "\<exists>pre suf. User = pre @ u # suf \<and> (\<forall>v\<in>set pre. email v \<noteq> auth_email a) \<and>
         getAuthUser (Some a) User Post =
           (Some \<lparr>doc = u, populated_posts = populate_posts Post u\<rparr>,
            pre @ u\<lparr>isOnline := True\<rparr> # suf)" by blast
  show "email u = auth_email a" by (rule p(2))
next
  fix u
  show "sorted_wrt (\<lambda>p p'. createdAt p \<ge> createdAt p') (populate_posts Post u)"
    unfolding populate_posts_def by (rule sort_desc_sorted)
next
  fix u
  show "set (populate_posts Post u) = {p \<in> set Post. post_id p \<in> set (posts u)}"
    by (auto simp: populate_posts_def set_sort_desc)
qed

text \<open>The claim for the claims of alice, the second of two stored users.\<close>

theorem getAuthUser_outcomes_witness:
  "findOne (\<lambda>u. email u = auth_email alice_claims) [bob, alice] = Some alice \<and>
   getAuthUser (Some alice_claims) [bob, alice] example_posts =
     (Some \<lparr>doc = alice,
            populated_posts = [\<lparr>post_id = ''p2'', author = ''u1'', createdAt = 200\<rparr>,
                               \<lparr>post_id = ''p1'', author = ''u1'', createdAt = 100\<rparr>]\<rparr>,
      [bob, alice\<lparr>isOnline := True\<rparr>]) \<and>
   sorted_wrt (\<lambda>p p'. createdAt p \<ge> createdAt p') (populate_posts example_posts alice)"
proof -
  have f: "findOne (\<lambda>u. email u = auth_email alice_claims) [bob, alice] = Some alice"
    by (simp add: findOne_def alice_def bob_def alice_claims_def)
  have g: "getAuthUser (Some alice_claims) [bob, alice] example_posts =
     (Some \<lparr>doc = alice,
            populated_posts = [\<lparr>post_id = ''p2'', author = ''u1'', createdAt = 200\<rparr>,
                               \<lparr>post_id = ''p1'', author = ''u1'', createdAt = 100\<rparr>]\<rparr>,
      [bob, alice\<lparr>isOnline := True\<rparr>])"
    by code_simp
  have "sorted_wrt (\<lambda>p p'. createdAt p \<ge> createdAt p') (populate_posts example_posts alice)"
    using getAuthUser_outcomes[of "[bob, alice]" example_posts alice_claims] f by blast
  then show ?thesis using f g by blast
qed

text \<open>
  Claim C9. For every email, token, time and store: \<open>verifyResetPasswordToken\<close> returns
  the success message exactly when some stored user has the email, has the token as its
  \<open>passwordResetToken\<close>, and has a \<open>passwordResetTokenExpiry\<close> that is not before the
  current time less 3600000 milliseconds; in every other case it fails with
  \<open>InvalidOrExpiredToken\<close>.
\<close>

theorem verifyResetPasswordToken_outcomes:
  "verifyResetPasswordToken now email_arg token User =
     (if \<exists>u\<in>set User. email u = email_arg \<and> passwordResetToken u = Some token \<and>
           (\<exists>expiry. passwordResetTokenExpiry u = Some expiry \<and> now - 3600000 \<le> expiry)
      then Inr ''Success'' else Inl InvalidOrExpiredToken)"
proof -
  let ?q = "\<lambda>u. email u = email_arg \<and> passwordResetToken u = Some token \<and>
     (case passwordResetTokenExpiry u of None \<Rightarrow> False
      | Some expiry \<Rightarrow> expiry \<ge> now - RESET_PASSWORD_TOKEN_EXPIRY)"
  have q: "?q u \<longleftrightarrow> email u = email_arg \<and> passwordResetToken u = Some token \<and>
           (\<exists>expiry. passwordResetTokenExpiry u = Some expiry \<and> now - 3600000 \<le> expiry)"
    for u :: user
    by (simp add: RESET_PASSWORD_TOKEN_EXPIRY_def split: option.split)
  show ?thesis
  proof (cases "findOne ?q User")
    case None
    moreover from None have "\<not> (\<exists>u\<in>set User. ?q u)" by (simp add: findOne_None_iff)
    ultimately show ?thesis unfolding verifyResetPasswordToken_def by (simp add: q)
  next
    case (Some u)
    moreover from findOne_SomeD[OF Some] have "\<exists>u\<in>set User. ?q u" by blast
    ultimately show ?thesis unfolding verifyResetPasswordToken_def by (simp add: q)
  qed
qed

text \<open>
  The claim for the token of alice, whose expiry is 10000000: half an hour after the
  expiry, an hour and a millisecond after it, and with a wrong token.
\<close>

theorem verifyResetPasswordToken_outcomes_witness:
  "verifyResetPasswordToken 11800000 ''alice@example.com'' ''r3s3t'' [alice, bob] = Inr ''Success'' \<and>
   verifyResetPasswordToken 13600000 ''alice@example.com'' ''r3s3t'' [alice, bob] = Inr ''Success'' \<and>
   verifyResetPasswordToken 13600001 ''alice@example.com'' ''r3s3t'' [alice, bob]
     = Inl InvalidOrExpiredToken \<and>
   verifyResetPasswordToken 11800000 ''alice@example.com'' ''guess'' [alice, bob]
     = Inl InvalidOrExpiredToken"
  unfolding verifyResetPasswordToken_outcomes by (simp add: alice_def bob_def)

section \<open>The search: claims C7 and C10\<close>

text \<open>
  Claim C7 as the specification words it asks that every user of a non-empty search have
  a username or a full name that case-insensitively contains the query. The query is
  compiled as a regular expression: for the caller alice and the query \<open>.\<close> the search
  returns bob, and neither \<open>bob\<close> nor \<open>Bob Builder\<close> contains a period.
\<close>

theorem searchUsers_pattern_counterexample:
  "searchUsers engine_refuses (Some ''.'') [alice, bob] (Some alice_claims) = Inr [bob] \<and>
   \<not> contains_ci ''.'' (username bob) \<and> \<not> contains_ci ''.'' (fullName bob)"
  by code_simp

text \<open>
  Claim C7, amended. \<open>searchUsers\<close> returns the empty sequence when the query is absent
  or empty. For a non-empty query and an authenticated caller, it fails with the error of
  \<open>new RegExp\<close> when the query is not a pattern, and otherwise returns at most 50 users,
  each of them stored, each with a username or a full name that the query matches as a
  regular expression with the \<open>i\<close> flag, and none with the caller's own id. For a query
  without syntax characters the match is case-insensitive containment.
\<close>

theorem searchUsers_results:
  "searchUsers engine None User authUser = Inr [] \<and>
   searchUsers engine (Some []) User authUser = Inr [] \<and>
   (q \<noteq> [] \<longrightarrow>
      (case RegExp_i engine q of
         Inl e \<Rightarrow> searchUsers engine (Some q) User (Some a) = Inl e
       | Inr re \<Rightarrow>
           (\<exists>users. searchUsers engine (Some q) User (Some a) = Inr users \<and> length users \<le> 50 \<and>
              (\<forall>u\<in>set users. u \<in> set User \<and> (re (username u) \<or> re (fullName u)) \<and>
                 user_id u \<noteq> auth_id a)))) \<and>
   ((\<forall>c\<in>set q. \<not> isSyntaxCharacter c) \<longrightarrow> RegExp_i engine q = Inr (contains_ci q))"
proof -
  have 1: "searchUsers engine None User authUser = Inr []" by (simp add: searchUsers_def)
  have 2: "searchUsers engine (Some []) User authUser = Inr []" by (simp add: searchUsers_def)
  have 3: "case RegExp_i engine q of
         Inl e \<Rightarrow> searchUsers engine (Some q) User (Some a) = Inl e
       | Inr re \<Rightarrow>
           (\<exists>users. searchUsers engine (Some q) User (Some a) = Inr users \<and> length users \<le> 50 \<and>
              (\<forall>u\<in>set users. u \<in> set User \<and> (re (username u) \<or> re (fullName u)) \<and>
                 user_id u \<noteq> auth_id a))" if q: "q \<noteq> []"
  proof (cases "RegExp_i engine q")
    case (Inl e)
    show ?thesis unfolding Inl sum.case by (rule searchUsers_refused[OF q Inl])
  next
    case (Inr re)
    show ?thesis unfolding Inr sum.case searchUsers_compiled[OF q Inr]
      using find_limit_results[of "\<lambda>u. (re (username u) \<or> re (fullName u)) \<and> user_id u \<noteq> auth_id a" 50 User]
      by blast
  qed
  have 4: "RegExp_i engine q = Inr (contains_ci q)" if "\<forall>c\<in>set q. \<not> isSyntaxCharacter c"
    using that by (rule RegExp_i_literal)
  from 1 2 3 4 show ?thesis by blast
qed

text \<open>The amended claim for the caller alice and the query \<open>BO\<close>.\<close>

theorem searchUsers_results_witness:
  "''BO'' \<noteq> [] \<and> list_all (\<lambda>c. \<not> isSyntaxCharacter c) ''BO'' \<and>
   RegExp_i engine_refuses ''BO'' = Inr (contains_ci ''BO'') \<and>
   (\<exists>users. searchUsers engine_refuses (Some ''BO'') [alice, bob] (Some alice_claims) = Inr users \<and>
      length users \<le> 50 \<and>
      (\<forall>u\<in>set users. u \<in> set [alice, bob] \<and>
         (contains_ci ''BO'' (username u) \<or> contains_ci ''BO'' (fullName u)) \<and>
         user_id u \<noteq> auth_id alice_claims))"
proof -
  have n: "''BO'' \<noteq> []" by simp
  have l: "\<forall>c\<in>set ''BO''. \<not> isSyntaxCharacter c" by (simp add: isSyntaxCharacter_def)
  note t = searchUsers_results[of engine_refuses "[alice, bob]" "Some alice_claims" "''BO''" alice_claims]
  have r: "RegExp_i engine_refuses ''BO'' = Inr (contains_ci ''BO'')" using t l by blast
  have "case RegExp_i engine_refuses ''BO'' of
         Inl e \<Rightarrow> searchUsers engine_refuses (Some ''BO'') [alice, bob] (Some alice_claims) = Inl e
       | Inr re \<Rightarrow>
           (\<exists>users. searchUsers engine_refuses (Some ''BO'') [alice, bob] (Some alice_claims) = Inr users \<and>
              length users \<le> 50 \<and>
              (\<forall>u\<in>set users. u \<in> set [alice, bob] \<and> (re (username u) \<or> re (fullName u)) \<and>
                 user_id u \<noteq> auth_id alice_claims))"
    using t n by blast
  then have "\<exists>users. searchUsers engine_refuses (Some ''BO'') [alice, bob] (Some alice_claims) = Inr users \<and>
      length users \<le> 50 \<and>
      (\<forall>u\<in>set users. u \<in> set [alice, bob] \<and>
         (contains_ci ''BO'' (username u) \<or> contains_ci ''BO'' (fullName u)) \<and>
         user_id u \<noteq> auth_id alice_claims)"
    unfolding r sum.case .
  then show ?thesis using n l r by (simp add: list_all_iff)
qed

text \<open>
  Claim C10. For every non-empty query, every engine and every store, \<open>searchUsers\<close>
  without \<open>authUser\<close> fails: with the error of \<open>new RegExp\<close> when the query is not a
  pattern, and otherwise with the \<open>TypeError\<close> of reading \<open>id\<close> of \<open>undefined\<close>.
\<close>

theorem searchUsers_unauthenticated:
  "q \<noteq> [] \<Longrightarrow>
     searchUsers engine (Some q) User None =
       (case RegExp_i engine q of Inl e \<Rightarrow> Inl e | Inr re \<Rightarrow> Inl TypeError) \<and>
     isl (searchUsers engine (Some q) User None)"
  by (simp add: searchUsers_def split: sum.split)

text \<open>The claim for the query \<open>bob\<close>, which matches a stored user.\<close>

theorem searchUsers_unauthenticated_witness:
  "''bob'' \<noteq> [] \<and> searchUsers engine_refuses (Some ''bob'') [alice, bob] None = Inl TypeError"
proof -
  have n: "''bob'' \<noteq> []" by simp
  have r: "RegExp_i engine_refuses ''bob'' = Inr (contains_ci ''bob'')"
    by (rule RegExp_i_literal) (simp add: isSyntaxCharacter_def)
  show ?thesis
    using searchUsers_unauthenticated[OF n, of engine_refuses "[alice, bob]"] unfolding r by simp
qed

section \<open>Sign-up: claims C1 and C2\<close>

text \<open>
  Claim C2 as the specification words it names two errors for the username,
  \<open>InvalidUsername\<close> for the pattern and \<open>UsernameUnavailable\<close>, and calls the length
  bounds redundant. The username \<open>ab\<close> satisfies the pattern, so the claim's rules give
  \<open>UsernameUnavailable\<close>; sign-up fails on its length alone, with the message
  \<open>Username min 3 characters.\<close>, which is neither of the two.
\<close>

theorem signup_username_length_counterexample:
  "username_pattern ''ab'' \<and>
   first_violation (signup_rules (carol_input\<lparr>username := ''ab''\<rparr>) [alice, bob])
     = Some UsernameUnavailable \<and>
   signup (User_save hash_example new_id_example) generateToken_example ''s3cr3t''
     (carol_input\<lparr>username := ''ab''\<rparr>) [alice, bob]
     = (Inl (UsernameLength TooShort), [alice, bob], [])"
  by code_simp

text \<open>
  Claim C2, amended. For every sign-up input, every store and every \<open>User\<close> model,
  \<open>signup\<close> fails with the error of the first rule that the input violates, in the order
  uniqueness (naming the field), completeness, full name length within 4 and 40, email
  format, username (the pattern in the specification's words, then the length within 3
  and 20 with an error of its own, then the reserved words), password length at least 6;
  then it leaves the store as it was and hands nothing to the model. When no rule is
  violated it hands the model one object, adds the document that the model saves and
  returns its token.
\<close>

theorem signup_first_violation:
  "signup save generateToken SECRET input User =
     (case first_violation (signup_rules_amended input User) of
        Some e \<Rightarrow> (Inl e, User, [])
      | None \<Rightarrow>
          (Inr (generateToken (save \<lparr>fullName = fullName input, email = email input,
                  username = username input, password = password input\<rparr> User) SECRET ''1y''),
           User @ [save \<lparr>fullName = fullName input, email = email input,
                  username = username input, password = password input\<rparr> User],
           [\<lparr>fullName = fullName input, email = email input,
             username = username input, password = password input\<rparr>]))"
proof (cases "findOne (\<lambda>u. email u = email input \<or> username u = username input) User")
  case (Some u)
  then show ?thesis by (simp add: signup_def signup_rules_amended_def)
next
  case None
  then show ?thesis
    by (simp add: signup_def signup_rules_amended_def usernameRegex_test AUTH_TOKEN_EXPIRY_def Let_def)
qed

text \<open>
  The amended claim at a full name of two characters, at usernames of two and of
  twenty-one characters, at a reserved username, at a reserved word with a hyphen (which
  the pattern refuses first), at a taken username with a missing full name (uniqueness
  comes first), and at an input that violates no rule.
\<close>

theorem signup_first_violation_witness:
  "signup (User_save hash_example new_id_example) generateToken_example ''s3cr3t''
     (carol_input\<lparr>fullName := ''Al''\<rparr>) [alice, bob]
     = (Inl (InvalidFullName TooShort), [alice, bob], []) \<and>
   signup (User_save hash_example new_id_example) generateToken_example ''s3cr3t''
     (carol_input\<lparr>username := ''ab''\<rparr>) [alice, bob]
     = (Inl (UsernameLength TooShort), [alice, bob], []) \<and>
   signup (User_save hash_example new_id_example) generateToken_example ''s3cr3t''
     (carol_input\<lparr>username := ''aaaaaaaaaaaaaaaaaaaaa''\<rparr>) [alice, bob]
     = (Inl (UsernameLength TooLong), [alice, bob], []) \<and>
   signup (User_save hash_example new_id_example) generateToken_example ''s3cr3t''
     (carol_input\<lparr>username := ''post''\<rparr>) [alice, bob]
     = (Inl UsernameUnavailable, [alice, bob], []) \<and>
   signup (User_save hash_example new_id_example) generateToken_example ''s3cr3t''
     (carol_input\<lparr>username := ''forgot-password''\<rparr>) [alice, bob]
     = (Inl InvalidUsername, [alice, bob], []) \<and>
   signup (User_save hash_example new_id_example) generateToken_example ''s3cr3t''
     (carol_input\<lparr>username := ''alice'', fullName := []\<rparr>) [alice, bob]
     = (Inl (AlreadyExists ''username''), [alice, bob], []) \<and>
   signup (User_save hash_example new_id_example) generateToken_example ''s3cr3t'' carol_input [alice, bob]
     = (Inr (''id-carol'', ''s3cr3t'', ''1y''),
        [alice, bob, User_save hash_example new_id_example carol_input [alice, bob]], [carol_input])"
proof -
  have 1: "first_violation (signup_rules_amended (carol_input\<lparr>fullName := ''Al''\<rparr>) [alice, bob])
     = Some (InvalidFullName TooShort)" by code_simp
  have 2: "first_violation (signup_rules_amended (carol_input\<lparr>username := ''ab''\<rparr>) [alice, bob])
     = Some (UsernameLength TooShort)" by code_simp
  have 3: "first_violation (signup_rules_amended (carol_input\<lparr>username := ''aaaaaaaaaaaaaaaaaaaaa''\<rparr>)
     [alice, bob]) = Some (UsernameLength TooLong)" by code_simp
  have 4: "first_violation (signup_rules_amended (carol_input\<lparr>username := ''post''\<rparr>) [alice, bob])
     = Some UsernameUnavailable" by code_simp
  have 5: "first_violation (signup_rules_amended (carol_input\<lparr>username := ''forgot-password''\<rparr>)
     [alice, bob]) = Some InvalidUsername" by code_simp
  have 6: "first_violation (signup_rules_amended (carol_input\<lparr>username := ''alice'', fullName := []\<rparr>)
     [alice, bob]) = Some (AlreadyExists ''username'')" by code_simp
  have 7: "first_violation (signup_rules_amended carol_input [alice, bob]) = None" by code_simp
  have 8: "\<lparr>fullName = fullName carol_input, email = email carol_input,
     username = username carol_input, password = password carol_input\<rparr> = carol_input"
    by (simp add: carol_input_def)
  have 9: "generateToken_example (User_save hash_example new_id_example carol_input [alice, bob])
     ''s3cr3t'' ''1y'' = (''id-carol'', ''s3cr3t'', ''1y'')"
    by (simp add: generateToken_example_def User_save_def new_id_example_def carol_input_def)
  show ?thesis
    unfolding signup_first_violation 1 2 3 4 5 6 7 8 by (simp add: 9)
qed

text \<open>
  Claim C1 as the specification words it asks that the object which the resolver passes
  to the store's create operation carry the password in hashed form only. At the sign-up
  of carol with the password \<open>secret1\<close> the stored document holds the hash, and the
  object handed to \<open>new User\<close> holds \<open>secret1\<close>.
\<close>

theorem signup_plaintext_counterexample:
  "signup (User_save hash_example new_id_example) generateToken_example ''s3cr3t'' carol_input [] =
     (Inr (''id-carol'', ''s3cr3t'', ''1y''),
      [\<lparr>fullName = ''Carol Danvers'', email = ''carol@example.com'', username = ''carol'',
        password = ''hash-of-secret1'', user_id = ''id-carol'', isOnline = False,
        passwordResetToken = None, passwordResetTokenExpiry = None, posts = []\<rparr>],
      [\<lparr>fullName = ''Carol Danvers'', email = ''carol@example.com'', username = ''carol'',
        password = ''secret1''\<rparr>])"
  by code_simp

text \<open>
  Claim C1, amended. For every valid sign-up input, the user document that \<open>signup\<close>
  creates stores the one-way hash of the supplied password, never the plaintext (a hash
  is not its argument), and nothing else is added to the store; the hash is computed by
  the store's create operation, the \<open>save\<close> of the \<open>User\<close> model, not by the resolver: the
  one object that the resolver passes to it carries the four fields of the input, the
  password as it was supplied.
\<close>

theorem signup_stores_hash:
  "signup (User_save hash new_id) generateToken SECRET input User = (Inr tok, User', created) \<Longrightarrow>
     created = [\<lparr>fullName = fullName input, email = email input,
                 username = username input, password = password input\<rparr>] \<and>
     (\<exists>d. User' = User @ [d] \<and> password d = hash (password input) \<and>
        fullName d = fullName input \<and> email d = email input \<and> username d = username input \<and>
        tok = generateToken d SECRET ''1y'') \<and>
     (hash (password input) \<noteq> password input \<longrightarrow>
        (\<forall>d\<in>set User'. d \<notin> set User \<longrightarrow> password d \<noteq> password input))"
proof -
  assume s: "signup (User_save hash new_id) generateToken SECRET input User = (Inr tok, User', created)"
  let ?obj = "\<lparr>fullName = fullName input, email = email input,
                username = username input, password = password input\<rparr>"
  let ?d = "User_save hash new_id ?obj User"
  have r: "created = [?obj] \<and> User' = User @ [?d] \<and> tok = generateToken ?d SECRET ''1y''"
    using s unfolding signup_def Let_def AUTH_TOKEN_EXPIRY_def
    by (simp split: option.splits if_splits)
  have d: "password ?d = hash (password input)" "fullName ?d = fullName input"
    "email ?d = email input" "username ?d = username input"
    by (simp_all add: User_save_def)
  have "\<exists>d. User' = User @ [d] \<and> password d = hash (password input) \<and>
        fullName d = fullName input \<and> email d = email input \<and> username d = username input \<and>
        tok = generateToken d SECRET ''1y''"
    using r d by blast
  moreover have "\<forall>d\<in>set User'. d \<notin> set User \<longrightarrow> password d \<noteq> password input"
    if "hash (password input) \<noteq> password input"
    using r d(1) that by auto
  ultimately show ?thesis using r by blast
qed

text \<open>The amended claim at the sign-up of carol next to two stored users.\<close>

theorem signup_stores_hash_witness:
  "hash_example (password carol_input) \<noteq> password carol_input \<and>
   (\<exists>tok User' created.
      signup (User_save hash_example new_id_example) generateToken_example ''s3cr3t'' carol_input
        [alice, bob] = (Inr tok, User', created) \<and>
      created = [carol_input] \<and>
      (\<exists>d. User' = [alice, bob] @ [d] \<and> password d = ''hash-of-secret1'') \<and>
      list_all (\<lambda>d. d \<in> set [alice, bob] \<or> password d \<noteq> ''secret1'') User')"
proof -
  let ?User' = "[alice, bob, User_save hash_example new_id_example carol_input [alice, bob]]"
  have e: "signup (User_save hash_example new_id_example) generateToken_example ''s3cr3t'' carol_input
        [alice, bob] = (Inr (''id-carol'', ''s3cr3t'', ''1y''), ?User', [carol_input])"
    by code_simp
  have h: "hash_example (password carol_input) \<noteq> password carol_input"
    by (simp add: hash_example_def carol_input_def)
  have p: "password carol_input = ''secret1''" "hash_example ''secret1'' = ''hash-of-secret1''"
    by (simp_all add: carol_input_def hash_example_def)
  note t = signup_stores_hash[OF e]
  from t obtain d where "?User' = [alice, bob] @ [d]" "password d = hash_example (password carol_input)"
    by blast
  then have 1: "\<exists>d. ?User' = [alice, bob] @ [d] \<and> password d = ''hash-of-secret1''"
    unfolding p by blast
  from t h have "\<forall>d\<in>set ?User'. d \<notin> set [alice, bob] \<longrightarrow> password d \<noteq> password carol_input"
    by blast
  then have 2: "list_all (\<lambda>d. d \<in> set [alice, bob] \<or> password d \<noteq> ''secret1'') ?User'"
    unfolding p list_all_iff by blast
  show ?thesis using e h 1 2 by blast
qed

text \<open>
  The example model and the example comparison agree: after her sign-up carol signs in
  with her password.
\<close>

lemma signup_then_signin:
  "signin bcrypt_compare_example generateToken_example ''s3cr3t'' ''carol'' (Some ''secret1'')
     (fst (snd (signup (User_save hash_example new_id_example) generateToken_example ''s3cr3t''
        carol_input [alice, bob])))
     = Inr (''id-carol'', ''s3cr3t'', ''1y'')"
  by code_simp

end
